theory Spec2Isabelle
  imports Main "HOL-Library.Char_ord" "HOL-Library.List_Lexorder" "HOL-Library.Sublist"
    "HOL-Library.AList"
begin

section \<open>hdf2tif: converting an HDF container into one TIFF\<close>

text \<open>
  The script \<^verbatim>\<open>hdf2tif.py\<close> is Python 2 (\<^verbatim>\<open>iteritems\<close>, \<^verbatim>\<open>keys()[0]\<close>). It is a
  sequence of calls into GDAL, ElementTree, \<^verbatim>\<open>glob\<close>, \<^verbatim>\<open>os\<close> and \<^verbatim>\<open>shutil\<close>.
  The embedding keeps every function of the script under its own name. What the
  script computes itself (names, paths, the filtered dictionaries, the label list,
  the order of the calls, which exceptions escape) is translated line by line.
  What the libraries do is modelled as far as the script depends on it: a file
  system as an association list of paths, XML documents as trees, and the GDAL
  calls as writes into the file system that are also recorded, in order, in a log.
\<close>

subsection \<open>Python strings\<close>

text \<open>A Python 2 \<^verbatim>\<open>str\<close> is a byte string: \<^typ>\<open>string\<close>, ordered byte-wise.\<close>

datatype py_error = IndexError | KeyError | AttributeError | IOError | ParseError | OSError

text \<open>\<^verbatim>\<open>LookupError\<close> is the common base class of \<^verbatim>\<open>IndexError\<close> and \<^verbatim>\<open>KeyError\<close>.\<close>

fun is_LookupError :: "py_error \<Rightarrow> bool" where
  "is_LookupError IndexError = True"
| "is_LookupError KeyError = True"
| "is_LookupError _ = False"

definition digit_char :: "nat \<Rightarrow> char" where
  "digit_char d = ''0123456789'' ! d"

function str_nat :: "nat \<Rightarrow> string" where
  "str_nat n = (if n < 10 then [digit_char n] else str_nat (n div 10) @ [digit_char (n mod 10)])"
  by pat_completeness auto
termination
  by (relation "measure (\<lambda>n. n)") auto

declare str_nat.simps [simp del]

text \<open>\<^verbatim>\<open>str(i)\<close> for a Python integer.\<close>

definition str_int :: "int \<Rightarrow> string" where
  "str_int i = (if i < 0 then CHR ''-'' # str_nat (nat (- i)) else str_nat (nat i))"

text \<open>\<^verbatim>\<open>s.zfill(width)\<close>: zeros go after a leading sign.\<close>

definition zfill :: "nat \<Rightarrow> string \<Rightarrow> string" where
  "zfill width s =
     (if width \<le> length s then s
      else (case s of
              [] \<Rightarrow> replicate width (CHR ''0'')
            | c # r \<Rightarrow>
                if c = CHR ''+'' \<or> c = CHR ''-''
                then c # replicate (width - length s) (CHR ''0'') @ r
                else replicate (width - length s) (CHR ''0'') @ s))"

text \<open>\<^verbatim>\<open>s.split(c)\<close> for a one-character separator: never the empty list.\<close>

fun split_on :: "char \<Rightarrow> string \<Rightarrow> string list" where
  "split_on c [] = [[]]"
| "split_on c (x # xs) =
     (if x = c then [] # split_on c xs
      else (let r = split_on c xs in (x # hd r) # tl r))"

text \<open>
  \<^verbatim>\<open>xs[i]\<close> for \<open>i \<ge> 0\<close>. The index \<^verbatim>\<open>[-1]\<close> is only applied to the result of
  \<^verbatim>\<open>split\<close>, which is never empty, and is written \<^const>\<open>last\<close>.
\<close>

definition py_index :: "'a list \<Rightarrow> nat \<Rightarrow> py_error + 'a" where
  "py_index xs i = (if i < length xs then Inr (xs ! i) else Inl IndexError)"

text \<open>
  \<^verbatim>\<open>s.replace(old, new)\<close>: the occurrences of \<open>old\<close> are found from the left and do
  not overlap; every one is replaced.
\<close>

fun replace_ne :: "string \<Rightarrow> string \<Rightarrow> string \<Rightarrow> string" where
  "replace_ne old new [] = []"
| "replace_ne old new (x # xs) =
     (if prefix old (x # xs) then new @ replace_ne old new (drop (length old - 1) xs)
      else x # replace_ne old new xs)"

definition replace :: "string \<Rightarrow> string \<Rightarrow> string \<Rightarrow> string" where
  "replace old new s =
     (if old = [] then new @ concat (map (\<lambda>c. c # new) s) else replace_ne old new s)"

text \<open>\<^verbatim>\<open>s.lower()\<close> on a byte string (C locale): only A to Z change.\<close>

definition lower_char :: "char \<Rightarrow> char" where
  "lower_char c =
     (case map_of (zip ''ABCDEFGHIJKLMNOPQRSTUVWXYZ'' ''abcdefghijklmnopqrstuvwxyz'') c of
        None \<Rightarrow> c | Some d \<Rightarrow> d)"

definition lower :: "string \<Rightarrow> string" where
  "lower s = map lower_char s"

text \<open>\<^verbatim>\<open>repr(s)\<close> of a Python 2 byte string, and \<^verbatim>\<open>str(xs)\<close> of a list of them.\<close>

definition hex_digit :: "nat \<Rightarrow> char" where
  "hex_digit d = ''0123456789abcdef'' ! d"

definition repr_char :: "char \<Rightarrow> char \<Rightarrow> string" where
  "repr_char quote c =
     (if c = quote \<or> c = CHR 0x5C then [CHR 0x5C, c]
      else if c = CHR 0x09 then [CHR 0x5C, CHR ''t'']
      else if c = CHR 0x0A then [CHR 0x5C, CHR ''n'']
      else if c = CHR 0x0D then [CHR 0x5C, CHR ''r'']
      else if c < CHR '' '' \<or> CHR 0x7F \<le> c
        then [CHR 0x5C, CHR ''x'', hex_digit (of_char c div 16), hex_digit (of_char c mod 16)]
      else [c])"

definition repr_str :: "string \<Rightarrow> string" where
  "repr_str s =
     (let quote = (if CHR 0x27 \<in> set s \<and> CHR 0x22 \<notin> set s then CHR 0x22 else CHR 0x27)
      in quote # concat (map (repr_char quote) s) @ [quote])"

fun join_with :: "string \<Rightarrow> string list \<Rightarrow> string" where
  "join_with sep [] = []"
| "join_with sep [x] = x"
| "join_with sep (x # y # ys) = x @ sep @ join_with sep (y # ys)"

definition str_list :: "string list \<Rightarrow> string" where
  "str_list xs = ''['' @ join_with '', '' (map repr_str xs) @ '']''"

subsection \<open>Paths (\<^verbatim>\<open>posixpath\<close>)\<close>

type_synonym path = string

text \<open>\<^verbatim>\<open>s.rfind(c)\<close>: the last index of \<open>c\<close>, or \<open>-1\<close>.\<close>

definition rfind :: "char \<Rightarrow> string \<Rightarrow> int" where
  "rfind c s =
     (if c \<in> set s then int (length s) - 1 - int (length (takeWhile (\<lambda>x. x \<noteq> c) (rev s)))
      else - 1)"

text \<open>
  \<^verbatim>\<open>os.path.splitext(p)[0]\<close>: the extension starts at the last dot of the last
  component, unless only dots precede it there.
\<close>

definition splitext_root :: "path \<Rightarrow> path" where
  "splitext_root p =
     (let sepIndex = rfind (CHR ''/'') p; dotIndex = rfind (CHR ''.'') p
      in if sepIndex < dotIndex \<and>
            (\<exists>c \<in> set (take (nat (dotIndex - (sepIndex + 1))) (drop (nat (sepIndex + 1)) p)).
               c \<noteq> CHR ''.'')
         then take (nat dotIndex) p else p)"

text \<open>\<^verbatim>\<open>os.path.join(a, b)\<close>.\<close>

definition dir_prefix :: "path \<Rightarrow> path" where
  "dir_prefix a = (if a = [] \<or> last a = CHR ''/'' then a else a @ ''/'')"

definition path_join :: "path \<Rightarrow> path \<Rightarrow> path" where
  "path_join a b = (if b \<noteq> [] \<and> hd b = CHR ''/'' then b else dir_prefix a @ b)"

subsection \<open>XML documents (\<^verbatim>\<open>xml.etree.ElementTree\<close>)\<close>

datatype xml =
  Element (elem_tag: string) (attrib: "(string \<times> string) list")
    (elem_text: "string option") (children: "xml list")

text \<open>\<^verbatim>\<open>e.find(tag)\<close> with a plain tag: the first direct child with that tag, or \<^verbatim>\<open>None\<close>.\<close>

definition find_child :: "string \<Rightarrow> xml \<Rightarrow> xml option" where
  "find_child t e = List.find (\<lambda>c. elem_tag c = t) (children e)"

text \<open>\<^verbatim>\<open>e.set(key, value)\<close> and \<^verbatim>\<open>e.get(key)\<close>.\<close>

definition set_attrib :: "string \<Rightarrow> string \<Rightarrow> xml \<Rightarrow> xml" where
  "set_attrib k v e = Element (elem_tag e) (AList.update k v (attrib e)) (elem_text e) (children e)"

definition get_attrib :: "string \<Rightarrow> xml \<Rightarrow> string option" where
  "get_attrib k e = map_of (attrib e) k"

text \<open>
  ElementTree elements are mutable objects: a change to the element that \<^verbatim>\<open>find\<close>
  returned is a change inside its parent. \<open>map_first\<close> rebuilds the parent's child
  list with the first child that satisfies \<open>P\<close> changed.
\<close>

fun map_first :: "('a \<Rightarrow> bool) \<Rightarrow> ('a \<Rightarrow> 'a) \<Rightarrow> 'a list \<Rightarrow> 'a list" where
  "map_first P f [] = []"
| "map_first P f (x # xs) = (if P x then f x # xs else x # map_first P f xs)"

definition update_child :: "string \<Rightarrow> (xml \<Rightarrow> xml) \<Rightarrow> xml \<Rightarrow> xml" where
  "update_child t f e =
     Element (elem_tag e) (attrib e) (elem_text e) (map_first (\<lambda>c. elem_tag c = t) f (children e))"

text \<open>\<^verbatim>\<open>child = SubElement(parent, tag); child.text = txt\<close>: appended as the last child.\<close>

definition SubElement_text :: "string \<Rightarrow> string \<Rightarrow> xml \<Rightarrow> xml" where
  "SubElement_text t txt parent =
     Element (elem_tag parent) (attrib parent) (elem_text parent)
       (children parent @ [Element t [] (Some txt) []])"

subsection \<open>The file system\<close>

datatype warp_options =
  WarpOptions (srcSRS: string) (dstSRS: string) (warpMemoryLimit: string) (multithread: bool)
| OptionString string

text \<open>
  What a file holds: an XML document (a single-band VRT), the multi-band VRT that
  \<^verbatim>\<open>gdal.BuildVRT\<close> makes of a list of sources, the raster that \<^verbatim>\<open>gdal.Warp\<close> makes of
  a source, or bytes the script never reads. A file carries the metadata string
  that \<^verbatim>\<open>SetMetadata\<close> attached to it, if any.
\<close>

datatype content =
  Xml xml
| MergedVRT "path list" bool
| Warped path warp_options
| Opaque

datatype node = Dir | File content "string option"

text \<open>
  Paths are compared as texts (no normalisation, no links). The order of the list
  is the order in which the directory listing reports the entries.
\<close>

type_synonym filesystem = "(path \<times> node) list"

definition path_exists :: "filesystem \<Rightarrow> path \<Rightarrow> bool" where
  "path_exists fs p = (map_of fs p \<noteq> None)"

text \<open>\<open>p\<close> names an entry directly inside the directory \<open>d\<close>.\<close>

definition child_name :: "path \<Rightarrow> path \<Rightarrow> string" where
  "child_name d p = drop (length (dir_prefix d)) p"

definition is_child :: "path \<Rightarrow> path \<Rightarrow> bool" where
  "is_child d p =
     (prefix (dir_prefix d) p \<and> child_name d p \<noteq> [] \<and> CHR ''/'' \<notin> set (child_name d p))"

definition is_under :: "path \<Rightarrow> path \<Rightarrow> bool" where
  "is_under d p = prefix (dir_prefix d) p"

text \<open>
  A file can be created where its directory exists; a relative name without a
  slash is in the current directory.
\<close>

definition parent_exists :: "filesystem \<Rightarrow> path \<Rightarrow> bool" where
  "parent_exists fs p =
     (CHR ''/'' \<notin> set p \<or> (\<exists>(d, n) \<in> set fs. n = Dir \<and> is_child d p))"

definition write_file :: "filesystem \<Rightarrow> path \<Rightarrow> content \<Rightarrow> filesystem" where
  "write_file fs p c =
     (if parent_exists fs p \<and> map_of fs p \<noteq> Some Dir
      then AList.update p (File c None) fs else fs)"

text \<open>
  \<^verbatim>\<open>glob.glob(os.path.join(directory, '*.' + extension))\<close>: the entries directly in
  the directory whose name ends with the extension and does not start with a dot,
  in listing order. The directory is taken literally: the model does not expand
  the characters \<^verbatim>\<open>*\<close>, \<^verbatim>\<open>?\<close> and \<^verbatim>\<open>[\<close> in it, which \<open>has_magic\<close> detects.
\<close>

definition has_magic :: "string \<Rightarrow> bool" where
  "has_magic s = (\<exists>c \<in> set s. c = CHR ''*'' \<or> c = CHR ''?'' \<or> c = CHR ''['')"

definition glob_match_ext :: "string \<Rightarrow> string \<Rightarrow> bool" where
  "glob_match_ext extension name =
     (suffix (CHR ''.'' # extension) name \<and> name \<noteq> [] \<and> hd name \<noteq> CHR ''.'')"

definition list_files :: "filesystem \<Rightarrow> path \<Rightarrow> string \<Rightarrow> path list" where
  "list_files fs directory extension =
     [p. (p, n) \<leftarrow> fs, is_child directory p, glob_match_ext extension (child_name directory p)]"

text \<open>\<^verbatim>\<open>os.makedirs\<close>, \<^verbatim>\<open>os.remove\<close> and \<^verbatim>\<open>shutil.rmtree\<close>.\<close>

definition makedirs :: "filesystem \<Rightarrow> path \<Rightarrow> py_error + filesystem" where
  "makedirs fs p = (if p = [] \<or> path_exists fs p then Inl OSError else Inr (fs @ [(p, Dir)]))"

definition os_remove :: "filesystem \<Rightarrow> path \<Rightarrow> py_error + filesystem" where
  "os_remove fs p =
     (case map_of fs p of Some (File c m) \<Rightarrow> Inr (AList.delete p fs) | _ \<Rightarrow> Inl OSError)"

definition rmtree :: "filesystem \<Rightarrow> path \<Rightarrow> py_error + filesystem" where
  "rmtree fs d =
     (case map_of fs d of
        Some Dir \<Rightarrow> Inr [(p, n) \<leftarrow> fs. p \<noteq> d \<and> \<not> is_under d p]
      | _ \<Rightarrow> Inl OSError)"

subsection \<open>The world: file system, GDAL, and the interpreter\<close>

datatype gdal_call =
  BuildVRT path "string list" bool
| Warp path path warp_options
| SetMetadata path string

record world =
  fs :: filesystem
  gdal_log :: "gdal_call list"

text \<open>
  What the script reads from outside: its own directory, the subdatasets GDAL
  reports for a file (\<open>None\<close>: \<^verbatim>\<open>gdal.Open\<close> returned \<^verbatim>\<open>None\<close>), the items of a
  subdataset's metadata dictionary, the VRT document that \<^verbatim>\<open>gdal.BuildVRT\<close> writes
  for one source, and the order in which a Python 2 dictionary with the given
  string keys (in insertion order) lists its keys.
\<close>

record env =
  DIRECTORY :: path
  GetSubDatasets :: "path \<Rightarrow> (string \<times> string) list option"
  GetMetadata_Dict :: "string \<Rightarrow> (string \<times> string) list option"
  vrt_document :: "string \<Rightarrow> xml"
  dict_keys :: "string list \<Rightarrow> string list"

type_synonym 'a res = "(py_error + 'a) \<times> world"

text \<open>
  GDAL reports a failure by returning \<^verbatim>\<open>None\<close> (the script does not enable GDAL
  exceptions), so a call that cannot write leaves the file system as it is.
\<close>

definition gdal_BuildVRT :: "path \<Rightarrow> string list \<Rightarrow> bool \<Rightarrow> content \<Rightarrow> world \<Rightarrow> world" where
  "gdal_BuildVRT out srcs separate c w =
     w\<lparr>fs := write_file (fs w) out c, gdal_log := gdal_log w @ [BuildVRT out srcs separate]\<rparr>"

definition gdal_Warp :: "path \<Rightarrow> path \<Rightarrow> warp_options \<Rightarrow> world \<Rightarrow> world" where
  "gdal_Warp out src opts w =
     w\<lparr>fs := (case map_of (fs w) src of
                Some (File c m) \<Rightarrow> write_file (fs w) out (Warped src opts)
              | _ \<Rightarrow> fs w),
       gdal_log := gdal_log w @ [Warp out src opts]\<rparr>"

text \<open>\<^verbatim>\<open>gdal.Open(p).SetMetadata(s)\<close>: \<^verbatim>\<open>Open\<close> gives \<^verbatim>\<open>None\<close> unless \<open>p\<close> is a file.\<close>

definition gdal_SetMetadata :: "path \<Rightarrow> string \<Rightarrow> world \<Rightarrow> unit res" where
  "gdal_SetMetadata p s w =
     (case map_of (fs w) p of
        Some (File c m) \<Rightarrow>
          (Inr (), w\<lparr>fs := AList.update p (File c (Some s)) (fs w),
                     gdal_log := gdal_log w @ [SetMetadata p s]\<rparr>)
      | _ \<Rightarrow> (Inl AttributeError, w))"

text \<open>A \<^verbatim>\<open>for\<close> loop whose body may raise: the first exception ends it.\<close>

fun for_each :: "('a \<Rightarrow> world \<Rightarrow> unit res) \<Rightarrow> 'a list \<Rightarrow> world \<Rightarrow> unit res" where
  "for_each body [] w = (Inr (), w)"
| "for_each body (x # xs) w =
     (case body x w of
        (Inl e, w') \<Rightarrow> (Inl e, w')
      | (Inr u, w') \<Rightarrow> for_each body xs w')"

text \<open>\<^verbatim>\<open>enumerate(xs, start)\<close>.\<close>

fun py_enumerate :: "int \<Rightarrow> 'a list \<Rightarrow> (int \<times> 'a) list" where
  "py_enumerate start [] = []"
| "py_enumerate start (x # xs) = (start, x) # py_enumerate (start + 1) xs"

subsection \<open>The functions of the script\<close>

text \<open>\<^verbatim>\<open>create_output_directory(hdf)\<close>: an existing path is reused as it is.\<close>

definition create_output_directory :: "path \<Rightarrow> world \<Rightarrow> path res" where
  "create_output_directory hdf w =
     (let direc = splitext_root hdf
      in if \<not> path_exists (fs w) direc
         then (case makedirs (fs w) direc of
                 Inl e \<Rightarrow> (Inl e, w)
               | Inr fs' \<Rightarrow> (Inr direc, w\<lparr>fs := fs'\<rparr>))
         else (Inr direc, w))"

text \<open>
  \<^verbatim>\<open>get_metadata_item(subdataset, keyword)\<close>. The dictionary comprehension keeps the
  items whose lower-cased key contains the keyword; \<^verbatim>\<open>filtered_meta.keys()[0]\<close> is
  the first key in the order of that new dictionary, and raises \<^verbatim>\<open>IndexError\<close> when
  it is empty.
\<close>

definition filtered_meta :: "string \<Rightarrow> (string \<times> string) list \<Rightarrow> (string \<times> string) list" where
  "filtered_meta keyword metadata = [(k, v) \<leftarrow> metadata. sublist keyword (lower k)]"

definition get_metadata_item :: "env \<Rightarrow> string \<Rightarrow> string \<Rightarrow> py_error + string" where
  "get_metadata_item env subdataset keyword =
     (case GetMetadata_Dict env subdataset of
        None \<Rightarrow> Inl AttributeError
      | Some metadata \<Rightarrow>
          (case dict_keys env (map fst (filtered_meta keyword metadata)) of
             [] \<Rightarrow> Inl IndexError
           | k # ks \<Rightarrow>
               (case map_of (filtered_meta keyword metadata) k of
                  None \<Rightarrow> Inl KeyError
                | Some v \<Rightarrow> Inr v)))"

text \<open>
  \<^verbatim>\<open>modify_vrt(vrt, scale)\<close>. \<^verbatim>\<open>parse\<close> raises when the file is missing or is not
  XML; \<^verbatim>\<open>find\<close> returns \<^verbatim>\<open>None\<close> when there is no such child, and the next call on
  it raises. Both \<^verbatim>\<open>root.find('VRTRasterBand')\<close> return the same element.
\<close>

definition patch_vrt :: "string \<Rightarrow> xml \<Rightarrow> py_error + xml" where
  "patch_vrt scale root =
     (case find_child ''VRTRasterBand'' root of
        None \<Rightarrow> Inl AttributeError
      | Some raster_band \<Rightarrow>
          (case find_child ''ComplexSource'' (set_attrib ''dataType'' ''Float32'' raster_band) of
             None \<Rightarrow> Inl AttributeError
           | Some source \<Rightarrow>
               Inr (update_child ''VRTRasterBand''
                      (\<lambda>b. update_child ''ComplexSource'' (SubElement_text ''ScaleRatio'' scale)
                             (set_attrib ''dataType'' ''Float32'' b))
                      root)))"

definition modify_vrt :: "path \<Rightarrow> string \<Rightarrow> world \<Rightarrow> unit res" where
  "modify_vrt vrt scale w =
     (case map_of (fs w) vrt of
        None \<Rightarrow> (Inl IOError, w)
      | Some Dir \<Rightarrow> (Inl IOError, w)
      | Some (File (Xml root) m) \<Rightarrow>
          (case patch_vrt scale root of
             Inl e \<Rightarrow> (Inl e, w)
           | Inr root' \<Rightarrow> (Inr (), w\<lparr>fs := AList.update vrt (File (Xml root') m) (fs w)\<rparr>))
      | Some (File _ m) \<Rightarrow> (Inl ParseError, w))"

text \<open>
  \<^verbatim>\<open>convert_to_vrt(subdatasets, data_dir, bands)\<close>. \<open>bands\<close> holds the values of
  \<^verbatim>\<open>int(str(b))\<close>. The first loop runs over \<^verbatim>\<open>enumerate(bands, start=1)\<close>, the second
  over the items of \<^verbatim>\<open>dict(enumerate(subdatasets, start=1))\<close>, which CPython 2 lists
  in ascending order of these small integer keys.
\<close>

definition vrt_name_band :: "int \<Rightarrow> int \<Rightarrow> string \<Rightarrow> string" where
  "vrt_name_band order band name =
     zfill 2 (str_int order) @ ''_Band'' @ zfill 2 (str_int band) @ ''_'' @
     last (split_on (CHR '':'') name) @ ''.vrt''"

definition vrt_name_all :: "int \<Rightarrow> string \<Rightarrow> string" where
  "vrt_name_all order name = ''Band'' @ zfill 2 (str_int order) @ ''_'' @ name @ ''.vrt''"

definition make_vrt :: "env \<Rightarrow> path \<Rightarrow> string \<Rightarrow> world \<Rightarrow> unit res" where
  "make_vrt env output_name name w =
     (let w1 = gdal_BuildVRT output_name [name] False (Xml (vrt_document env name)) w
      in case get_metadata_item env name ''scale'' of
           Inl e \<Rightarrow> (Inl e, w1)
         | Inr scale \<Rightarrow> modify_vrt output_name scale w1)"

definition convert_band ::
  "env \<Rightarrow> (int \<times> string \<times> string) list \<Rightarrow> path \<Rightarrow> int \<times> int \<Rightarrow> world \<Rightarrow> unit res" where
  "convert_band env subdatasets_dict data_dir ob w =
     (case ob of (order, band) \<Rightarrow>
        (case map_of subdatasets_dict band of
           None \<Rightarrow> (Inl KeyError, w)
         | Some subd \<Rightarrow>
             make_vrt env (path_join data_dir (vrt_name_band order band (fst subd))) (fst subd) w))"

definition convert_all ::
  "env \<Rightarrow> (int \<times> string \<times> string) list \<Rightarrow> path \<Rightarrow> int \<times> string \<times> string \<Rightarrow> world \<Rightarrow> unit res" where
  "convert_all env subdatasets_dict data_dir ob w =
     (case ob of (order, band) \<Rightarrow>
        (case map_of subdatasets_dict order of
           None \<Rightarrow> (Inl KeyError, w)
         | Some subd \<Rightarrow>
             make_vrt env (path_join data_dir (vrt_name_all order (fst subd))) (fst subd) w))"

definition convert_to_vrt ::
  "env \<Rightarrow> (string \<times> string) list \<Rightarrow> path \<Rightarrow> int list \<Rightarrow> world \<Rightarrow> unit res" where
  "convert_to_vrt env subdatasets data_dir bands w =
     (if bands \<noteq> []
      then (let subdatasets_dict = [(key, v) \<leftarrow> py_enumerate 1 subdatasets. key \<in> set bands]
            in for_each (convert_band env subdatasets_dict data_dir) (py_enumerate 1 bands) w)
      else (let subdatasets_dict = py_enumerate 1 subdatasets
            in for_each (convert_all env subdatasets_dict data_dir) subdatasets_dict w))"

text \<open>\<^verbatim>\<open>clear_temp_files(data_dir, vrt_output)\<close>.\<close>

definition clear_temp_files :: "path \<Rightarrow> path \<Rightarrow> world \<Rightarrow> unit res" where
  "clear_temp_files data_dir vrt_output w =
     (case os_remove (fs w) vrt_output of
        Inl e \<Rightarrow> (Inl e, w)
      | Inr fs1 \<Rightarrow>
          (case rmtree fs1 data_dir of
             Inl e \<Rightarrow> (Inl e, w\<lparr>fs := fs1\<rparr>)
           | Inr fs2 \<Rightarrow> (Inr (), w\<lparr>fs := fs2\<rparr>)))"

text \<open>
  \<^verbatim>\<open>hdf2tif(hdf, overwrite, bands, reproject)\<close>, in the order of its lines.
  Lines 148 to 152: only the \<^verbatim>\<open>IndexError\<close> of \<^verbatim>\<open>[0]\<close> on an empty list is caught.
\<close>

definition overwrite_step :: "env \<Rightarrow> bool \<Rightarrow> world \<Rightarrow> unit res" where
  "overwrite_step env overwrite w =
     (if overwrite
      then (case list_files (fs w) (DIRECTORY env) ''tif'' of
              [] \<Rightarrow> (Inr (), w)
            | f # rest \<Rightarrow>
                (case os_remove (fs w) f of
                   Inl e \<Rightarrow> (Inl e, w)
                 | Inr fs' \<Rightarrow> (Inr (), w\<lparr>fs := fs'\<rparr>)))
      else (Inr (), w))"

definition vrt_output_path :: "path \<Rightarrow> path" where
  "vrt_output_path hdf = replace ''.hdf'' ''.vrt'' hdf"

definition output_tiff_path :: "path \<Rightarrow> path" where
  "output_tiff_path hdf = replace ''.vrt'' ''.tif'' (vrt_output_path hdf)"

text \<open>Lines 154 to 161: from opening the file to the merged VRT.\<close>

definition merge_step ::
  "env \<Rightarrow> path \<Rightarrow> int list \<Rightarrow> world \<Rightarrow> ((string \<times> string) list \<times> path) res" where
  "merge_step env hdf bands w =
     (case GetSubDatasets env hdf of
        None \<Rightarrow> (Inl AttributeError, w)
      | Some subdatasets \<Rightarrow>
          (case create_output_directory hdf w of
             (Inl e, w1) \<Rightarrow> (Inl e, w1)
           | (Inr data_dir, w1) \<Rightarrow>
               (case convert_to_vrt env subdatasets data_dir bands w1 of
                  (Inl e, w2) \<Rightarrow> (Inl e, w2)
                | (Inr u, w2) \<Rightarrow>
                    (let vrt_list = list_files (fs w2) data_dir ''vrt'';
                         vrt_output = vrt_output_path hdf
                     in (Inr (subdatasets, data_dir),
                         gdal_BuildVRT vrt_output (sort vrt_list) True
                           (MergedVRT (sort vrt_list) True) w2)))))"

text \<open>Lines 162 to 173.\<close>

definition warp_options_of :: "bool \<Rightarrow> warp_options" where
  "warp_options_of reproject =
     (if reproject
      then WarpOptions ''+proj=sinu +R=6371007.181 +nadgrids=@null +wktext'' ''EPSG:4326''
             ''4096'' True
      else OptionString [])"

definition warp_step :: "path \<Rightarrow> bool \<Rightarrow> world \<Rightarrow> world" where
  "warp_step hdf reproject w =
     (let warp_options = warp_options_of reproject;
          output_tiff = output_tiff_path hdf
      in if \<not> path_exists (fs w) output_tiff
         then gdal_Warp output_tiff (vrt_output_path hdf) warp_options w
         else w)"

text \<open>Lines 175 to 182: the label list; \<^verbatim>\<open>[4]\<close> raises on a name with fewer parts.\<close>

fun band_names :: "int \<Rightarrow> (string \<times> string) list \<Rightarrow> py_error + string list" where
  "band_names index [] = Inr []"
| "band_names index (subd # rest) =
     (case py_index (split_on (CHR '':'') (fst subd)) 4 of
        Inl e \<Rightarrow> Inl e
      | Inr fragment \<Rightarrow>
          (case band_names (index + 1) rest of
             Inl e \<Rightarrow> Inl e
           | Inr names \<Rightarrow> Inr ((zfill 2 (str_int (index + 1)) @ '':'' @ fragment) # names)))"

text \<open>Lines 175 to 189.\<close>

definition finish_step :: "path \<Rightarrow> (string \<times> string) list \<Rightarrow> path \<Rightarrow> world \<Rightarrow> path res" where
  "finish_step hdf subdatasets data_dir w =
     (case band_names 0 subdatasets of
        Inl e \<Rightarrow> (Inl e, w)
      | Inr metadata \<Rightarrow>
          (case gdal_SetMetadata (output_tiff_path hdf) (str_list metadata) w of
             (Inl e, w1) \<Rightarrow> (Inl e, w1)
           | (Inr u, w1) \<Rightarrow>
               (case clear_temp_files data_dir (vrt_output_path hdf) w1 of
                  (Inl e, w2) \<Rightarrow> (Inl e, w2)
                | (Inr u, w2) \<Rightarrow> (Inr (output_tiff_path hdf), w2))))"

definition hdf2tif :: "env \<Rightarrow> path \<Rightarrow> bool \<Rightarrow> int list \<Rightarrow> bool \<Rightarrow> world \<Rightarrow> path res" where
  "hdf2tif env hdf overwrite bands reproject w =
     (case overwrite_step env overwrite w of
        (Inl e, w0) \<Rightarrow> (Inl e, w0)
      | (Inr u, w0) \<Rightarrow>
          (case merge_step env hdf bands w0 of
             (Inl e, w1) \<Rightarrow> (Inl e, w1)
           | (Inr (subdatasets, data_dir), w1) \<Rightarrow>
               finish_step hdf subdatasets data_dir (warp_step hdf reproject w1)))"

subsection \<open>What a run has done so far\<close>

text \<open>
  A call of \<^verbatim>\<open>gdal.BuildVRT\<close> on one source with default options, as
  \<^verbatim>\<open>convert_to_vrt\<close> makes it; and the worlds \<open>w'\<close> that differ from \<open>w\<close> in
  the log only by such calls: no merged VRT was built, nothing was warped, no
  metadata was attached.
\<close>

fun is_single_build :: "gdal_call \<Rightarrow> bool" where
  "is_single_build (BuildVRT out srcs separate) = (length srcs = 1 \<and> \<not> separate)"
| "is_single_build _ = False"

definition only_single_builds :: "world \<Rightarrow> world \<Rightarrow> bool" where
  "only_single_builds w w' =
     (\<exists>calls. gdal_log w' = gdal_log w @ calls \<and> list_all is_single_build calls)"


fun is_SetMetadata :: "gdal_call \<Rightarrow> bool" where
  "is_SetMetadata (SetMetadata p s) = True"
| "is_SetMetadata _ = False"


text \<open>
  The names of the subdatasets that the conversion loop converts, in the order in
  which it converts them (the requested positions, or all subdatasets), and the
  part of such a name that goes into the name of its VRT file.
\<close>

definition requested_names :: "(string \<times> string) list \<Rightarrow> int list \<Rightarrow> string list" where
  "requested_names subdatasets bands =
     (if bands \<noteq> [] then map (\<lambda>b. fst (subdatasets ! nat (b - 1))) bands
      else map fst subdatasets)"

definition name_part :: "int list \<Rightarrow> string \<Rightarrow> string" where
  "name_part bands name = (if bands \<noteq> [] then last (split_on (CHR '':'') name) else name)"

text \<open>
  The subdataset called \<open>name\<close> is one that the conversion loop is asked to convert:
  it sits at a requested position, or no positions were requested.
\<close>

definition is_requested :: "(string \<times> string) list \<Rightarrow> int list \<Rightarrow> string \<Rightarrow> bool" where
  "is_requested subdatasets bands name =
     (if bands \<noteq> []
      then (\<exists>b \<in> set bands. 1 \<le> b \<and> b \<le> int (length subdatasets) \<and>
              fst (subdatasets ! nat (b - 1)) = name)
      else name \<in> fst ` set subdatasets)"

subsection \<open>Example inputs\<close>

text \<open>
  A VRT as \<^verbatim>\<open>gdal.BuildVRT\<close> writes it for one 16-bit band with a no-data value,
  and a directory that holds it.
\<close>

definition ex_source :: xml where
  "ex_source =
     Element ''ComplexSource'' [] None
       [Element ''SourceFilename'' [(''relativeToVRT'', ''0'')] (Some ''a.hdf'') [],
        Element ''SourceBand'' [] (Some ''1'') [],
        Element ''NODATA'' [] (Some ''-3000'') []]"

definition ex_band :: xml where
  "ex_band =
     Element ''VRTRasterBand'' [(''dataType'', ''Int16''), (''band'', ''1'')] None
       [Element ''NoDataValue'' [] (Some ''-3000'') [], ex_source]"

definition ex_vrt :: xml where
  "ex_vrt =
     Element ''VRTDataset'' [(''rasterXSize'', ''1200''), (''rasterYSize'', ''1200'')] None
       [Element ''SRS'' [] (Some ''PROJCS'') [], ex_band]"

definition ex_vrt_world :: world where
  "ex_vrt_world =
     \<lparr>fs = [(''/data'', Dir), (''/data/a'', Dir),
            (''/data/a/01_Band01_NDVI.vrt'', File (Xml ex_vrt) None)],
      gdal_log = []\<rparr>"

text \<open>
  A MODIS file \<^verbatim>\<open>a.hdf\<close> in the current directory with three subdatasets, named as
  GDAL names them. Two carry scale metadata, the quality layer does not. The
  dictionary order of the interpreter is taken to be the reverse of the insertion
  order.
\<close>

definition ex_name :: "string \<Rightarrow> string" where
  "ex_name layer = ''HDF4_EOS:EOS_GRID:'' @ [CHR 0x22] @ ''a.hdf'' @ [CHR 0x22] @ '':Grid:'' @ layer"

definition ex_subdatasets :: "(string \<times> string) list" where
  "ex_subdatasets =
     [(ex_name ''NDVI'', ''[1200x1200] NDVI (16-bit integer)''),
      (ex_name ''EVI'', ''[1200x1200] EVI (16-bit integer)''),
      (ex_name ''QA'', ''[1200x1200] QA (16-bit unsigned integer)'')]"

definition ex_env :: env where
  "ex_env =
     \<lparr>DIRECTORY = ''/opt/geoutilities'',
      GetSubDatasets = (\<lambda>p. if p = ''a.hdf'' then Some ex_subdatasets else None),
      GetMetadata_Dict = map_of
        [(ex_name ''NDVI'', [(''long_name'', ''NDVI''), (''scale_factor'', ''10000'')]),
         (ex_name ''EVI'', [(''Scale_Factor'', ''10000''), (''scale_factor_err'', ''0'')]),
         (ex_name ''QA'', [(''long_name'', ''VI Quality'')])],
      vrt_document = (\<lambda>s. ex_vrt),
      dict_keys = rev\<rparr>"

definition ex_world :: world where
  "ex_world =
     \<lparr>fs = [(''a.hdf'', File Opaque None),
            (''/opt/geoutilities'', Dir),
            (''/opt/geoutilities/hdf2tif.py'', File Opaque None)],
      gdal_log = []\<rparr>"

text \<open>The same, with two TIFF files left in the directory of the script.\<close>

definition ex_two_tifs :: world where
  "ex_two_tifs =
     \<lparr>fs = [(''a.hdf'', File Opaque None),
            (''/opt/geoutilities'', Dir),
            (''/opt/geoutilities/old.tif'', File Opaque None),
            (''/opt/geoutilities/hdf2tif.py'', File Opaque None),
            (''/opt/geoutilities/older.tif'', File Opaque None)],
      gdal_log = []\<rparr>"


text \<open>
  The world that the run for the bands 1, 2 and 3 leaves behind: it ends with an
  exception at the quality layer, after three VRT files were written.
\<close>

definition ex_world_stale :: world where
  "ex_world_stale = snd (hdf2tif ex_env ''a.hdf'' True [1, 2, 3] True ex_world)"

text \<open>The same file opened by an absolute path, \<^verbatim>\<open>/data/a.hdf\<close>.\<close>

definition ex_abs_name :: "string \<Rightarrow> string" where
  "ex_abs_name layer =
     ''HDF4_EOS:EOS_GRID:'' @ [CHR 0x22] @ ''/data/a.hdf'' @ [CHR 0x22] @ '':Grid:'' @ layer"

definition ex_abs_env :: env where
  "ex_abs_env =
     \<lparr>DIRECTORY = ''/opt/geoutilities'',
      GetSubDatasets = (\<lambda>p. if p = ''/data/a.hdf''
         then Some [(ex_abs_name ''NDVI'', ''[1200x1200] NDVI (16-bit integer)''),
                    (ex_abs_name ''EVI'', ''[1200x1200] EVI (16-bit integer)'')]
         else None),
      GetMetadata_Dict = (\<lambda>s. Some [(''long_name'', ''VI''), (''scale_factor'', ''10000'')]),
      vrt_document = (\<lambda>s. ex_vrt),
      dict_keys = rev\<rparr>"

definition ex_abs_world :: world where
  "ex_abs_world =
     \<lparr>fs = [(''/data'', Dir), (''/data/a.hdf'', File Opaque None),
            (''/opt/geoutilities'', Dir),
            (''/opt/geoutilities/hdf2tif.py'', File Opaque None)],
      gdal_log = []\<rparr>"

text \<open>An environment in which the only scale key is written with capitals.\<close>

definition ex_caps_env :: env where
  "ex_caps_env =
     \<lparr>DIRECTORY = ''/opt/geoutilities'',
      GetSubDatasets = (\<lambda>p. if p = ''a.hdf'' then Some ex_subdatasets else None),
      GetMetadata_Dict = (\<lambda>s. Some [(''long_name'', ''NDVI''), (''SCALE_Factor'', ''10000'')]),
      vrt_document = (\<lambda>s. ex_vrt),
      dict_keys = rev\<rparr>"

text \<open>
  A file \<^verbatim>\<open>b.hdf\<close> whose subdatasets GDAL names as plain HDF4 data sets: such a
  name has four fields between colons. \<open>quoted\<close> puts a text between single quotes.
\<close>

definition quoted :: "string \<Rightarrow> string" where
  "quoted s = CHR 0x27 # s @ [CHR 0x27]"

definition ex_sds_name :: "string \<Rightarrow> string" where
  "ex_sds_name n = ''HDF4_SDS:UNKNOWN:'' @ [CHR 0x22] @ ''b.hdf'' @ [CHR 0x22] @ '':'' @ n"

definition ex_sds_env :: env where
  "ex_sds_env =
     \<lparr>DIRECTORY = ''/opt/geoutilities'',
      GetSubDatasets = (\<lambda>p. if p = ''b.hdf''
         then Some [(ex_sds_name ''0'', ''[1200x1200] NDVI (16-bit integer)''),
                    (ex_sds_name ''1'', ''[1200x1200] EVI (16-bit integer)'')]
         else None),
      GetMetadata_Dict = (\<lambda>s. Some [(''long_name'', ''VI''), (''scale_factor'', ''10000'')]),
      vrt_document = (\<lambda>s. ex_vrt),
      dict_keys = rev\<rparr>"

definition ex_sds_world :: world where
  "ex_sds_world =
     \<lparr>fs = [(''b.hdf'', File Opaque None),
            (''/opt/geoutilities'', Dir),
            (''/opt/geoutilities/hdf2tif.py'', File Opaque None)],
      gdal_log = []\<rparr>"

text \<open>A file whose extension is written in capitals, \<^verbatim>\<open>/data/MOD13.HDF\<close>.\<close>

definition ex_upper_name :: "string \<Rightarrow> string" where
  "ex_upper_name layer =
     ''HDF4_EOS:EOS_GRID:'' @ [CHR 0x22] @ ''/data/MOD13.HDF'' @ [CHR 0x22] @ '':Grid:'' @ layer"

definition ex_upper_env :: env where
  "ex_upper_env =
     \<lparr>DIRECTORY = ''/opt/geoutilities'',
      GetSubDatasets = (\<lambda>p. if p = ''/data/MOD13.HDF''
         then Some [(ex_upper_name ''NDVI'', ''[1200x1200] NDVI (16-bit integer)''),
                    (ex_upper_name ''EVI'', ''[1200x1200] EVI (16-bit integer)'')]
         else None),
      GetMetadata_Dict = (\<lambda>s. Some [(''long_name'', ''VI''), (''scale_factor'', ''10000'')]),
      vrt_document = (\<lambda>s. ex_vrt),
      dict_keys = rev\<rparr>"

definition ex_upper_world :: world where
  "ex_upper_world =
     \<lparr>fs = [(''/data'', Dir), (''/data/MOD13.HDF'', File Opaque None),
            (''/opt/geoutilities'', Dir),
            (''/opt/geoutilities/hdf2tif.py'', File Opaque None)],
      gdal_log = []\<rparr>"

section \<open>Properties\<close>

subsection \<open>Patching a VRT\<close>

lemma find_map_first:
  assumes "\<And>x. P x \<Longrightarrow> P (f x)"
  shows "List.find P (map_first P f xs) = map_option f (List.find P xs)"
  using assms by (induction xs) auto

lemma find_child_set_attrib [simp]: "find_child t (set_attrib k v e) = find_child t e"
  by (simp add: find_child_def set_attrib_def)

lemma elem_tag_set_attrib [simp]: "elem_tag (set_attrib k v e) = elem_tag e"
  by (simp add: set_attrib_def)

lemma elem_tag_update_child [simp]: "elem_tag (update_child t f e) = elem_tag e"
  by (simp add: update_child_def)

lemma elem_tag_SubElement_text [simp]: "elem_tag (SubElement_text t txt e) = elem_tag e"
  by (simp add: SubElement_text_def)

lemma find_child_update_child:
  assumes "\<And>x. elem_tag (f x) = elem_tag x"
  shows "find_child t (update_child t f e) = map_option f (find_child t e)"
  unfolding find_child_def update_child_def
  by (simp add: find_map_first assms)

lemma get_attrib_set_attrib:
  "get_attrib k' (set_attrib k v e) = (if k' = k then Some v else get_attrib k' e)"
  by (simp add: get_attrib_def set_attrib_def update_conv')

lemma get_attrib_update_child [simp]: "get_attrib k (update_child t f e) = get_attrib k e"
  by (simp add: get_attrib_def update_child_def)

lemma patch_vrt_ok:
  assumes "find_child ''VRTRasterBand'' root = Some band"
      and "find_child ''ComplexSource'' band = Some source"
  shows "\<exists>root'. patch_vrt scale root = Inr root' \<and>
      find_child ''VRTRasterBand'' root' =
        Some (update_child ''ComplexSource'' (SubElement_text ''ScaleRatio'' scale)
               (set_attrib ''dataType'' ''Float32'' band))"
  using assms by (simp add: patch_vrt_def find_child_update_child)

text \<open>
  Claim C2. Let the file \<open>vrt\<close> hold an XML document whose root has a
  \<^verbatim>\<open>VRTRasterBand\<close> child, and let that band have a \<^verbatim>\<open>ComplexSource\<close> child. Then
  for every scale string \<^verbatim>\<open>modify_vrt\<close> returns normally; afterwards the file of the
  same name holds a document whose raster band has \<^verbatim>\<open>dataType\<close> equal to
  \<^verbatim>\<open>Float32\<close>, whatever it was before, with its other attributes kept, and whose
  complex source has one more child at the end, a \<^verbatim>\<open>ScaleRatio\<close> element with the
  scale as its text. No file is added or removed, no other file changes, and GDAL
  is not called.
\<close>

theorem modify_vrt_patches:
  assumes "map_of (fs w) vrt = Some (File (Xml root) m)"
      and "find_child ''VRTRasterBand'' root = Some band"
      and "find_child ''ComplexSource'' band = Some source"
  shows "\<exists>w' root' band' source'.
      modify_vrt vrt scale w = (Inr (), w') \<and>
      map_of (fs w') vrt = Some (File (Xml root') m) \<and>
      find_child ''VRTRasterBand'' root' = Some band' \<and>
      get_attrib ''dataType'' band' = Some ''Float32'' \<and>
      (\<forall>k. k \<noteq> ''dataType'' \<longrightarrow> get_attrib k band' = get_attrib k band) \<and>
      find_child ''ComplexSource'' band' = Some source' \<and>
      children source' = children source @ [Element ''ScaleRatio'' [] (Some scale) []] \<and>
      attrib source' = attrib source \<and>
      map fst (fs w') = map fst (fs w) \<and>
      (\<forall>p. p \<noteq> vrt \<longrightarrow> map_of (fs w') p = map_of (fs w) p) \<and>
      gdal_log w' = gdal_log w"
proof -
  let ?band' = "update_child ''ComplexSource'' (SubElement_text ''ScaleRatio'' scale)
               (set_attrib ''dataType'' ''Float32'' band)"
  let ?source' = "SubElement_text ''ScaleRatio'' scale source"
  obtain root' where r: "patch_vrt scale root = Inr root'"
    and b: "find_child ''VRTRasterBand'' root' = Some ?band'"
    using patch_vrt_ok [OF assms(2,3)] by blast
  let ?w' = "w\<lparr>fs := AList.update vrt (File (Xml root') m) (fs w)\<rparr>"
  have 1: "modify_vrt vrt scale w = (Inr (), ?w')"
    using assms(1) r by (simp add: modify_vrt_def)
  have 2: "map_of (fs ?w') vrt = Some (File (Xml root') m)"
    by (simp add: update_conv')
  have 3: "get_attrib ''dataType'' ?band' = Some ''Float32''"
    by (simp add: get_attrib_set_attrib)
  have 4: "\<forall>k. k \<noteq> ''dataType'' \<longrightarrow> get_attrib k ?band' = get_attrib k band"
    by (simp add: get_attrib_set_attrib)
  have 5: "find_child ''ComplexSource'' ?band' = Some ?source'"
    using assms(3) by (simp add: find_child_update_child)
  have 6: "children ?source' = children source @ [Element ''ScaleRatio'' [] (Some scale) []]"
    "attrib ?source' = attrib source"
    by (simp_all add: SubElement_text_def)
  have 7: "map fst (fs ?w') = map fst (fs w)"
    using assms(1) by (simp add: update_keys map_of_eq_None_iff [symmetric])
  have 8: "\<forall>p. p \<noteq> vrt \<longrightarrow> map_of (fs ?w') p = map_of (fs w) p"
    by (simp add: update_conv')
  show ?thesis
    using 1 2 b 3 4 5 6 7 8
    by (intro exI [of _ ?w'] exI [of _ root'] exI [of _ ?band'] exI [of _ ?source']) simp
qed

theorem modify_vrt_patches_witness:
  "map_of (fs ex_vrt_world) ''/data/a/01_Band01_NDVI.vrt'' = Some (File (Xml ex_vrt) None) \<and>
   find_child ''VRTRasterBand'' ex_vrt = Some ex_band \<and>
   find_child ''ComplexSource'' ex_band = Some ex_source \<and>
   (\<exists>w' root' band' source'.
      modify_vrt ''/data/a/01_Band01_NDVI.vrt'' ''0.0001'' ex_vrt_world = (Inr (), w') \<and>
      map_of (fs w') ''/data/a/01_Band01_NDVI.vrt'' = Some (File (Xml root') None) \<and>
      find_child ''VRTRasterBand'' root' = Some band' \<and>
      get_attrib ''dataType'' band' = Some ''Float32'' \<and>
      get_attrib ''band'' band' = Some ''1'' \<and>
      find_child ''ComplexSource'' band' = Some source' \<and>
      children source' = children ex_source @ [Element ''ScaleRatio'' [] (Some ''0.0001'') []])"
proof -
  have h1: "map_of (fs ex_vrt_world) ''/data/a/01_Band01_NDVI.vrt'' = Some (File (Xml ex_vrt) None)"
    by (simp add: ex_vrt_world_def)
  have h2: "find_child ''VRTRasterBand'' ex_vrt = Some ex_band"
    by (simp add: find_child_def ex_vrt_def ex_band_def)
  have h3: "find_child ''ComplexSource'' ex_band = Some ex_source"
    by (simp add: find_child_def ex_band_def ex_source_def)
  have h4: "get_attrib ''band'' ex_band = Some ''1''"
    by (simp add: get_attrib_def ex_band_def)
  from modify_vrt_patches [OF h1 h2 h3, of "''0.0001''"] h4
  have "\<exists>w' root' band' source'.
      modify_vrt ''/data/a/01_Band01_NDVI.vrt'' ''0.0001'' ex_vrt_world = (Inr (), w') \<and>
      map_of (fs w') ''/data/a/01_Band01_NDVI.vrt'' = Some (File (Xml root') None) \<and>
      find_child ''VRTRasterBand'' root' = Some band' \<and>
      get_attrib ''dataType'' band' = Some ''Float32'' \<and>
      get_attrib ''band'' band' = Some ''1'' \<and>
      find_child ''ComplexSource'' band' = Some source' \<and>
      children source' = children ex_source @ [Element ''ScaleRatio'' [] (Some ''0.0001'') []]"
    by fastforce
  with h1 h2 h3 show ?thesis by blast
qed

subsection \<open>The log of GDAL calls\<close>

lemma only_single_builds_refl [simp]: "only_single_builds w w"
  by (simp add: only_single_builds_def)

lemma only_single_builds_fs [simp]: "only_single_builds w (w\<lparr>fs := f\<rparr>)"
  by (simp add: only_single_builds_def)

lemma only_single_builds_trans:
  "only_single_builds w w1 \<Longrightarrow> only_single_builds w1 w2 \<Longrightarrow> only_single_builds w w2"
  by (auto simp: only_single_builds_def)

lemma modify_vrt_log: "modify_vrt vrt scale w = (r, w') \<Longrightarrow> gdal_log w' = gdal_log w"
  by (auto simp: modify_vrt_def split: option.splits node.splits content.splits sum.splits)

lemma make_vrt_log:
  "make_vrt env out name w = (r, w') \<Longrightarrow> gdal_log w' = gdal_log w @ [BuildVRT out [name] False]"
  by (auto simp: make_vrt_def Let_def gdal_BuildVRT_def split: sum.splits dest!: modify_vrt_log)

lemma make_vrt_single: "make_vrt env out name w = (r, w') \<Longrightarrow> only_single_builds w w'"
  by (drule make_vrt_log) (simp add: only_single_builds_def)

lemma convert_band_single:
  "convert_band env d data_dir ob w = (r, w') \<Longrightarrow> only_single_builds w w'"
  by (auto simp: convert_band_def split: prod.splits option.splits dest: make_vrt_single)

lemma convert_all_single:
  "convert_all env d data_dir ob w = (r, w') \<Longrightarrow> only_single_builds w w'"
  by (auto simp: convert_all_def split: prod.splits option.splits dest: make_vrt_single)

lemma for_each_single:
  assumes "\<And>x w r w'. body x w = (r, w') \<Longrightarrow> only_single_builds w w'"
  shows "for_each body xs w = (r, w') \<Longrightarrow> only_single_builds w w'"
proof (induction xs arbitrary: w)
  case Nil
  then show ?case by simp
next
  case (Cons x xs)
  obtain r1 w1 where b: "body x w = (r1, w1)" by (cases "body x w")
  have s: "only_single_builds w w1" using assms b by blast
  show ?case
  proof (cases r1)
    case (Inl e)
    with Cons.prems b s show ?thesis by simp
  next
    case (Inr u)
    with Cons.prems b have "for_each body xs w1 = (r, w')" by simp
    then have "only_single_builds w1 w'" by (rule Cons.IH)
    with s show ?thesis by (rule only_single_builds_trans)
  qed
qed

lemma convert_to_vrt_single:
  "convert_to_vrt env subs data_dir bands w = (r, w') \<Longrightarrow> only_single_builds w w'"
  unfolding convert_to_vrt_def Let_def
  by (auto split: if_splits elim: for_each_single [rotated] dest: convert_band_single convert_all_single)

lemma overwrite_step_log: "overwrite_step env ov w = (r, w') \<Longrightarrow> gdal_log w' = gdal_log w"
  by (auto simp: overwrite_step_def split: if_splits list.splits sum.splits)

lemma create_output_directory_log:
  "create_output_directory hdf w = (r, w') \<Longrightarrow> gdal_log w' = gdal_log w"
  by (auto simp: create_output_directory_def Let_def split: if_splits sum.splits)

lemma for_each_abort:
  assumes "x \<in> set xs" and "\<And>w. \<exists>e w'. body x w = (Inl e, w')"
  shows "\<exists>e w'. for_each body xs w = (Inl e, w')"
  using assms(1)
proof (induction xs arbitrary: w)
  case Nil
  then show ?case by simp
next
  case (Cons y ys)
  obtain r1 w1 where b: "body y w = (r1, w1)" by (cases "body y w")
  show ?case
  proof (cases r1)
    case (Inl e)
    with b show ?thesis by simp
  next
    case (Inr u)
    show ?thesis
    proof (cases "x = y")
      case True
      with assms(2) [of w] b Inr show ?thesis by simp
    next
      case False
      with Cons.prems have "x \<in> set ys" by simp
      from Cons.IH [OF this, of w1] b Inr show ?thesis by simp
    qed
  qed
qed

subsection \<open>The scale lookup\<close>

lemma map_of_py_enumerate:
  "map_of (py_enumerate s xs) k =
     (if s \<le> k \<and> k < s + int (length xs) then Some (xs ! nat (k - s)) else None)"
proof (induction xs arbitrary: s)
  case Nil
  then show ?case by simp
next
  case (Cons x xs)
  show ?case
  proof (cases "k = s")
    case True
    then show ?thesis by simp
  next
    case False
    have "nat (k - s) = Suc (nat (k - (s + 1)))" if "s < k"
      using that by simp
    with False Cons.IH [of "s + 1"] show ?thesis by auto
  qed
qed

lemma map_of_filter_key:
  "map_of [(k, v) \<leftarrow> xs. P k] x = (if P x then map_of xs x else None)"
  by (induction xs) auto

lemma subdatasets_dict_lookup:
  "map_of [(key, v) \<leftarrow> py_enumerate 1 subdatasets. key \<in> set bands] b =
     (if b \<in> set bands \<and> 1 \<le> b \<and> b \<le> int (length subdatasets)
      then Some (subdatasets ! nat (b - 1)) else None)"
  by (simp add: map_of_filter_key map_of_py_enumerate)

lemma py_enumerate_snd [simp]: "map snd (py_enumerate s xs) = xs"
  by (induction xs arbitrary: s) auto

lemma py_enumerate_mem: "x \<in> set xs \<Longrightarrow> \<exists>i. (i, x) \<in> set (py_enumerate s xs)"
proof -
  assume "x \<in> set xs"
  then have "x \<in> snd ` set (py_enumerate s xs)"
    by (metis py_enumerate_snd set_map)
  then show ?thesis by force
qed

lemma py_enumerate_lower: "(j, z) \<in> set (py_enumerate s ys) \<Longrightarrow> s \<le> j"
  by (induction ys arbitrary: s) force+

lemma py_enumerate_lookup:
  "(i, x) \<in> set (py_enumerate s xs) \<Longrightarrow> map_of (py_enumerate s xs) i = Some x"
proof (induction xs arbitrary: s)
  case Nil
  then show ?case by simp
next
  case (Cons y ys)
  show ?case
  proof (cases "i = s")
    case True
    with Cons.prems py_enumerate_lower [of i x "s + 1" ys] show ?thesis by auto
  next
    case False
    with Cons show ?thesis by auto
  qed
qed

lemma dict_keys_nil:
  assumes "\<forall>ks. set (dict_keys env ks) = set ks"
  shows "dict_keys env [] = []"
  using assms [rule_format, of "[]"] by simp

lemma filtered_meta_nil:
  "(filtered_meta keyword metadata = []) = (\<forall>k \<in> fst ` set metadata. \<not> sublist keyword (lower k))"
  by (auto simp: filtered_meta_def filter_empty_conv)

lemma get_metadata_item_none:
  assumes "\<forall>ks. set (dict_keys env ks) = set ks"
      and "GetMetadata_Dict env name = Some metadata"
      and "\<forall>k \<in> fst ` set metadata. \<not> sublist keyword (lower k)"
  shows "get_metadata_item env name keyword = Inl IndexError"
proof -
  have "filtered_meta keyword metadata = []"
    using assms(3) by (simp only: filtered_meta_nil)
  then show ?thesis
    using assms(2) dict_keys_nil [OF assms(1)] by (simp add: get_metadata_item_def)
qed

lemma get_metadata_item_some:
  assumes perm: "\<forall>ks. set (dict_keys env ks) = set ks"
      and md: "GetMetadata_Dict env name = Some metadata"
      and ex: "\<exists>k \<in> fst ` set metadata. sublist keyword (lower k)"
  shows "\<exists>k ks v. dict_keys env (map fst (filtered_meta keyword metadata)) = k # ks \<and>
           get_metadata_item env name keyword = Inr v \<and>
           map_of (filtered_meta keyword metadata) k = Some v \<and>
           (k, v) \<in> set metadata \<and> sublist keyword (lower k)"
proof -
  let ?f = "filtered_meta keyword metadata"
  from ex have "?f \<noteq> []" by (simp add: filtered_meta_nil)
  then have "set (dict_keys env (map fst ?f)) \<noteq> {}"
    using perm by simp
  then obtain k ks where ks: "dict_keys env (map fst ?f) = k # ks"
    by (cases "dict_keys env (map fst ?f)") auto
  then have "k \<in> set (dict_keys env (map fst ?f))" by simp
  then have "k \<in> fst ` set ?f" using perm by simp
  then obtain v where v: "map_of ?f k = Some v"
    by (metis weak_map_of_SomeI imageE prod.collapse)
  then have "(k, v) \<in> set ?f" by (rule map_of_SomeD)
  then have m: "(k, v) \<in> set metadata" "sublist keyword (lower k)"
    by (auto simp: filtered_meta_def)
  from md ks v have "get_metadata_item env name keyword = Inr v"
    by (simp add: get_metadata_item_def)
  with ks v m show ?thesis by blast
qed

lemma make_vrt_no_scale:
  assumes "get_metadata_item env name ''scale'' = Inl e"
  shows "\<exists>w'. make_vrt env out name w = (Inl e, w')"
  using assms by (simp add: make_vrt_def Let_def)

lemma convert_to_vrt_no_scale:
  assumes g: "get_metadata_item env name ''scale'' = Inl e0"
      and r: "is_requested subdatasets bands name"
  shows "\<exists>e w'. convert_to_vrt env subdatasets data_dir bands w = (Inl e, w')"
proof (cases "bands = []")
  case True
  with r obtain d where "(name, d) \<in> set subdatasets"
    by (auto simp: is_requested_def)
  then obtain i where i: "(i, (name, d)) \<in> set (py_enumerate 1 subdatasets)"
    using py_enumerate_mem by fastforce
  have "\<exists>e w'. convert_all env (py_enumerate 1 subdatasets) data_dir (i, (name, d)) w = (Inl e, w')" for w
    using py_enumerate_lookup [OF i] make_vrt_no_scale [OF g]
    by (simp add: convert_all_def) blast
  from for_each_abort [of "(i, (name, d))" "py_enumerate 1 subdatasets"
      "convert_all env (py_enumerate 1 subdatasets) data_dir", OF i this] True
  show ?thesis
    by (simp add: convert_to_vrt_def Let_def)
next
  case False
  with r obtain b where b: "b \<in> set bands" "1 \<le> b" "b \<le> int (length subdatasets)"
      "fst (subdatasets ! nat (b - 1)) = name"
    by (auto simp: is_requested_def)
  obtain i where i: "(i, b) \<in> set (py_enumerate 1 bands)"
    using py_enumerate_mem b(1) by fastforce
  let ?d = "[(key, v) \<leftarrow> py_enumerate 1 subdatasets. key \<in> set bands]"
  have "map_of ?d b = Some (subdatasets ! nat (b - 1))"
    using b by (simp add: subdatasets_dict_lookup)
  then have "\<exists>e w'. convert_band env ?d data_dir (i, b) w = (Inl e, w')" for w
    using make_vrt_no_scale [OF g] b(4) by (simp add: convert_band_def) blast
  from for_each_abort [of "(i, b)" "py_enumerate 1 bands" "convert_band env ?d data_dir",
      OF i this] False
  show ?thesis
    by (simp add: convert_to_vrt_def Let_def)
qed

lemma merge_step_convert_abort:
  assumes "\<And>data_dir w. \<exists>e w'. convert_to_vrt env subdatasets data_dir bands w = (Inl e, w')"
      and "GetSubDatasets env hdf = Some subdatasets"
  shows "\<exists>e w'. merge_step env hdf bands w = (Inl e, w') \<and> only_single_builds w w'"
proof (cases "create_output_directory hdf w")
  case (Pair r1 w1)
  have l1: "only_single_builds w w1"
    using create_output_directory_log [OF Pair] by (simp add: only_single_builds_def)
  show ?thesis
  proof (cases r1)
    case (Inl e)
    with Pair assms(2) l1 show ?thesis by (simp add: merge_step_def)
  next
    case (Inr data_dir)
    obtain e w2 where c: "convert_to_vrt env subdatasets data_dir bands w1 = (Inl e, w2)"
      using assms(1) by blast
    have "only_single_builds w w2"
      using l1 convert_to_vrt_single [OF c] by (rule only_single_builds_trans)
    with Pair Inr c assms(2) show ?thesis by (simp add: merge_step_def)
  qed
qed

lemma hdf2tif_convert_abort:
  assumes "\<And>data_dir w. \<exists>e w'. convert_to_vrt env subdatasets data_dir bands w = (Inl e, w')"
      and "GetSubDatasets env hdf = Some subdatasets"
  shows "\<exists>e w'. hdf2tif env hdf overwrite bands reproject w = (Inl e, w') \<and> only_single_builds w w'"
proof (cases "overwrite_step env overwrite w")
  case (Pair r0 w0)
  have l0: "only_single_builds w w0"
    using overwrite_step_log [OF Pair] by (simp add: only_single_builds_def)
  show ?thesis
  proof (cases r0)
    case (Inl e)
    with Pair l0 show ?thesis by (simp add: hdf2tif_def)
  next
    case (Inr u)
    obtain e w1 where m: "merge_step env hdf bands w0 = (Inl e, w1)" "only_single_builds w0 w1"
      using merge_step_convert_abort [OF assms] by blast
    have "only_single_builds w w1"
      using l0 m(2) by (rule only_single_builds_trans)
    with Pair Inr m(1) show ?thesis by (simp add: hdf2tif_def)
  qed
qed

lemma get_metadata_item_in_order:
  assumes md: "GetMetadata_Dict env name = Some metadata"
      and ne: "filtered_meta keyword metadata \<noteq> []"
      and ord: "dict_keys env (map fst (filtered_meta keyword metadata)) =
                map fst (filtered_meta keyword metadata)"
  shows "get_metadata_item env name keyword = Inr (snd (hd (filtered_meta keyword metadata)))"
proof -
  obtain k v rest where f: "filtered_meta keyword metadata = (k, v) # rest"
    using ne by (cases "filtered_meta keyword metadata") auto
  show ?thesis
    using md ord by (simp add: get_metadata_item_def f)
qed

lemma get_metadata_item_single:
  assumes perm: "\<forall>ks. set (dict_keys env ks) = set ks"
      and md: "GetMetadata_Dict env name = Some metadata"
      and one: "filtered_meta keyword metadata = [(k, v)]"
  shows "get_metadata_item env name keyword = Inr v"
proof -
  have "set (dict_keys env [k]) = {k}"
    using perm by simp
  then obtain ks where "dict_keys env [k] = k # ks"
    by (cases "dict_keys env [k]") auto
  with md one show ?thesis
    by (simp add: get_metadata_item_def)
qed

text \<open>
  Claim C3, as the script has it. Let the dictionary order be a permutation of the
  keys, and let GDAL open the subdataset \<open>name\<close> with the metadata items
  \<open>metadata\<close>.

  If no key contains \<^verbatim>\<open>scale\<close> after lower-casing, \<^verbatim>\<open>get_metadata_item\<close> raises
  \<^verbatim>\<open>IndexError\<close>, a lookup error, and every run of \<^verbatim>\<open>hdf2tif\<close> that is asked to
  convert this subdataset ends with an exception, having made no GDAL call other
  than single-source \<^verbatim>\<open>BuildVRT\<close> calls: no merged VRT and no TIFF was produced.

  If some key contains \<^verbatim>\<open>scale\<close> after lower-casing, the function returns the value
  stored under the first key of the filtered dictionary in the dictionary order of
  the interpreter; that key is a key of the metadata that contains \<^verbatim>\<open>scale\<close>. It is
  the first matching key of the metadata when the dictionary lists the matching
  keys in the order of the metadata, and when only one key matches.
\<close>

theorem missing_scale_aborts:
  assumes perm: "\<forall>ks. set (dict_keys env ks) = set ks"
      and md: "GetMetadata_Dict env name = Some metadata"
  shows "((\<forall>k \<in> fst ` set metadata. \<not> sublist ''scale'' (lower k)) \<longrightarrow>
            get_metadata_item env name ''scale'' = Inl IndexError \<and>
            is_LookupError IndexError \<and>
            (\<forall>hdf subdatasets overwrite bands reproject w.
               GetSubDatasets env hdf = Some subdatasets \<and> is_requested subdatasets bands name \<longrightarrow>
               (\<exists>e w'. hdf2tif env hdf overwrite bands reproject w = (Inl e, w') \<and>
                        only_single_builds w w'))) \<and>
         ((\<exists>k \<in> fst ` set metadata. sublist ''scale'' (lower k)) \<longrightarrow>
            (\<exists>k ks v. dict_keys env (map fst (filtered_meta ''scale'' metadata)) = k # ks \<and>
               get_metadata_item env name ''scale'' = Inr v \<and>
               map_of (filtered_meta ''scale'' metadata) k = Some v \<and>
               (k, v) \<in> set metadata \<and> sublist ''scale'' (lower k))) \<and>
         (filtered_meta ''scale'' metadata \<noteq> [] \<and>
          dict_keys env (map fst (filtered_meta ''scale'' metadata)) =
            map fst (filtered_meta ''scale'' metadata) \<longrightarrow>
            get_metadata_item env name ''scale'' =
              Inr (snd (hd (filtered_meta ''scale'' metadata)))) \<and>
         (\<forall>k v. filtered_meta ''scale'' metadata = [(k, v)] \<longrightarrow>
            get_metadata_item env name ''scale'' = Inr v)"
proof (intro conjI impI allI)
  assume no: "\<forall>k \<in> fst ` set metadata. \<not> sublist ''scale'' (lower k)"
  show g: "get_metadata_item env name ''scale'' = Inl IndexError"
    using perm md no by (rule get_metadata_item_none)
  show "is_LookupError IndexError" by simp
  fix hdf subdatasets overwrite bands reproject w
  assume a: "GetSubDatasets env hdf = Some subdatasets \<and> is_requested subdatasets bands name"
  then have "\<exists>e w'. convert_to_vrt env subdatasets data_dir bands w = (Inl e, w')" for data_dir w
    using convert_to_vrt_no_scale [OF g] by blast
  then show "\<exists>e w'. hdf2tif env hdf overwrite bands reproject w = (Inl e, w') \<and>
                        only_single_builds w w'"
    using a by (intro hdf2tif_convert_abort) auto
next
  assume "\<exists>k \<in> fst ` set metadata. sublist ''scale'' (lower k)"
  with perm md show "\<exists>k ks v. dict_keys env (map fst (filtered_meta ''scale'' metadata)) = k # ks \<and>
               get_metadata_item env name ''scale'' = Inr v \<and>
               map_of (filtered_meta ''scale'' metadata) k = Some v \<and>
               (k, v) \<in> set metadata \<and> sublist ''scale'' (lower k)"
    by (rule get_metadata_item_some)
next
  assume "filtered_meta ''scale'' metadata \<noteq> [] \<and>
          dict_keys env (map fst (filtered_meta ''scale'' metadata)) =
            map fst (filtered_meta ''scale'' metadata)"
  then show "get_metadata_item env name ''scale'' =
              Inr (snd (hd (filtered_meta ''scale'' metadata)))"
    using md by (intro get_metadata_item_in_order) simp_all
next
  fix k v
  assume "filtered_meta ''scale'' metadata = [(k, v)]"
  with perm md show "get_metadata_item env name ''scale'' = Inr v"
    by (rule get_metadata_item_single)
qed

text \<open>
  Claim C3 as stated, that the value of the first matching metadata key is
  returned, fails where the filtered dictionary lists its keys in another order
  than the metadata: of the two matching keys, the value of the second is returned.
\<close>

theorem first_matching_key_counterexample:
  "GetMetadata_Dict ex_env (ex_name ''EVI'') =
     Some [(''Scale_Factor'', ''10000''), (''scale_factor_err'', ''0'')] \<and>
   filtered_meta ''scale'' [(''Scale_Factor'', ''10000''), (''scale_factor_err'', ''0'')] =
     [(''Scale_Factor'', ''10000''), (''scale_factor_err'', ''0'')] \<and>
   dict_keys ex_env [''Scale_Factor'', ''scale_factor_err''] =
     [''scale_factor_err'', ''Scale_Factor''] \<and>
   get_metadata_item ex_env (ex_name ''EVI'') ''scale'' = Inr ''0'' \<and>
   get_metadata_item ex_env (ex_name ''EVI'') ''scale'' \<noteq> Inr ''10000''"
  by code_simp

theorem missing_scale_aborts_witness:
  "(\<forall>ks. set (dict_keys ex_env ks) = set ks) \<and>
   GetMetadata_Dict ex_env (ex_name ''QA'') = Some [(''long_name'', ''VI Quality'')] \<and>
   GetMetadata_Dict ex_env (ex_name ''EVI'') =
     Some [(''Scale_Factor'', ''10000''), (''scale_factor_err'', ''0'')] \<and>
   get_metadata_item ex_env (ex_name ''QA'') ''scale'' = Inl IndexError \<and>
   (\<exists>e w'. hdf2tif ex_env ''a.hdf'' True [3] True ex_world = (Inl e, w') \<and>
      only_single_builds ex_world w') \<and>
   get_metadata_item ex_env (ex_name ''EVI'') ''scale'' = Inr ''0'' \<and>
   (\<forall>ks. set (dict_keys ex_caps_env ks) = set ks) \<and>
   GetMetadata_Dict ex_caps_env (ex_name ''NDVI'') =
     Some [(''long_name'', ''NDVI''), (''SCALE_Factor'', ''10000'')] \<and>
   lower ''SCALE_Factor'' = ''scale_factor'' \<and>
   filtered_meta ''scale'' [(''long_name'', ''NDVI''), (''SCALE_Factor'', ''10000'')] =
     [(''SCALE_Factor'', ''10000'')] \<and>
   get_metadata_item ex_caps_env (ex_name ''NDVI'') ''scale'' = Inr ''10000''"
proof -
  have perm: "\<forall>ks. set (dict_keys ex_env ks) = set ks"
    by (simp add: ex_env_def)
  have qa: "GetMetadata_Dict ex_env (ex_name ''QA'') = Some [(''long_name'', ''VI Quality'')]"
    by (simp add: ex_env_def ex_name_def)
  have evi: "GetMetadata_Dict ex_env (ex_name ''EVI'') =
      Some [(''Scale_Factor'', ''10000''), (''scale_factor_err'', ''0'')]"
    by (simp add: ex_env_def ex_name_def)
  have no: "\<forall>k \<in> fst ` set [(''long_name'', ''VI Quality'')]. \<not> sublist ''scale'' (lower k)"
    by (simp add: lower_def lower_char_def sublist_code)
  have yes: "\<exists>k \<in> fst ` set [(''Scale_Factor'', ''10000''), (''scale_factor_err'', ''0'')].
      sublist ''scale'' (lower k)"
    by (simp add: lower_def lower_char_def)
  have sub: "GetSubDatasets ex_env ''a.hdf'' = Some ex_subdatasets"
    by (simp add: ex_env_def)
  have req: "is_requested ex_subdatasets [3] (ex_name ''QA'')"
    by (simp add: is_requested_def ex_subdatasets_def)
  have keys: "dict_keys ex_env (map fst (filtered_meta ''scale''
      [(''Scale_Factor'', ''10000''), (''scale_factor_err'', ''0'')])) =
      [''scale_factor_err'', ''Scale_Factor'']"
    by (simp add: filtered_meta_def lower_def lower_char_def ex_env_def)
  have val: "map_of (filtered_meta ''scale''
      [(''Scale_Factor'', ''10000''), (''scale_factor_err'', ''0'')]) ''scale_factor_err'' = Some ''0''"
    by (simp add: filtered_meta_def lower_def lower_char_def)
  have cperm: "\<forall>ks. set (dict_keys ex_caps_env ks) = set ks"
    by (simp add: ex_caps_env_def)
  have cmd: "GetMetadata_Dict ex_caps_env (ex_name ''NDVI'') =
     Some [(''long_name'', ''NDVI''), (''SCALE_Factor'', ''10000'')]"
    by (simp add: ex_caps_env_def)
  have low: "lower ''SCALE_Factor'' = ''scale_factor''"
    by code_simp
  have cf: "filtered_meta ''scale'' [(''long_name'', ''NDVI''), (''SCALE_Factor'', ''10000'')] =
     [(''SCALE_Factor'', ''10000'')]"
    by code_simp
  from missing_scale_aborts [OF perm qa] no sub req
  have a: "get_metadata_item ex_env (ex_name ''QA'') ''scale'' = Inl IndexError"
    and b: "\<exists>e w'. hdf2tif ex_env ''a.hdf'' True [3] True ex_world = (Inl e, w') \<and>
      only_single_builds ex_world w'"
    by blast+
  from missing_scale_aborts [OF perm evi] yes keys val
  have c: "get_metadata_item ex_env (ex_name ''EVI'') ''scale'' = Inr ''0''"
    by auto
  from missing_scale_aborts [OF cperm cmd] cf
  have d: "get_metadata_item ex_caps_env (ex_name ''NDVI'') ''scale'' = Inr ''10000''"
    by blast
  from perm qa evi a b c cperm cmd low cf d show ?thesis by blast
qed

subsection \<open>Band positions outside the subdataset list\<close>

lemma for_each_append:
  "for_each body (xs @ ys) w =
     (case for_each body xs w of
        (Inl e, w') \<Rightarrow> (Inl e, w')
      | (Inr u, w') \<Rightarrow> for_each body ys w')"
  by (induction xs arbitrary: w) (auto split: prod.splits sum.splits)

lemma for_each_cong:
  assumes "\<And>x w. x \<in> set xs \<Longrightarrow> f x w = g x w"
  shows "for_each f xs w = for_each g xs w"
  using assms by (induction xs arbitrary: w) (auto split: prod.splits sum.splits)

lemma py_enumerate_append:
  "py_enumerate s (xs @ ys) = py_enumerate s xs @ py_enumerate (s + int (length xs)) ys"
  by (induction xs arbitrary: s) (auto simp: algebra_simps)

lemma py_enumerate_snd_mem: "(i, x) \<in> set (py_enumerate s xs) \<Longrightarrow> x \<in> set xs"
  by (metis py_enumerate_snd set_map image_eqI snd_conv)

lemma convert_band_KeyError:
  assumes "map_of d b = None"
  shows "convert_band env d data_dir (i, b) w = (Inl KeyError, w)"
  using assms by (simp add: convert_band_def)

lemma out_of_range_lookup:
  assumes "b < 1 \<or> int (length subdatasets) < b"
  shows "map_of [(key, v) \<leftarrow> py_enumerate 1 subdatasets. key \<in> set bands] b = None"
  using assms by (auto simp: subdatasets_dict_lookup)

lemma convert_to_vrt_out_of_range:
  assumes "b \<in> set bands" and "b < 1 \<or> int (length subdatasets) < b"
  shows "\<exists>e w'. convert_to_vrt env subdatasets data_dir bands w = (Inl e, w')"
proof -
  let ?d = "[(key, v) \<leftarrow> py_enumerate 1 subdatasets. key \<in> set bands]"
  obtain i where i: "(i, b) \<in> set (py_enumerate 1 bands)"
    using py_enumerate_mem assms(1) by fastforce
  have "\<exists>e w'. convert_band env ?d data_dir (i, b) w = (Inl e, w')" for w
    using convert_band_KeyError [OF out_of_range_lookup [OF assms(2)]] by blast
  from for_each_abort [of "(i, b)" "py_enumerate 1 bands" "convert_band env ?d data_dir",
      OF i this] assms(1)
  show ?thesis
    by (auto simp: convert_to_vrt_def Let_def)
qed

lemma convert_to_vrt_first_out_of_range:
  assumes "b < 1 \<or> int (length subdatasets) < b"
      and "pre = [] \<and> w' = w \<or>
           pre \<noteq> [] \<and> convert_to_vrt env subdatasets data_dir pre w = (Inr (), w')"
  shows "convert_to_vrt env subdatasets data_dir (pre @ b # post) w = (Inl KeyError, w')"
proof -
  define bands where "bands = pre @ b # post"
  define d where "d = [(key, v) \<leftarrow> py_enumerate 1 subdatasets. key \<in> set bands]"
  define d0 where "d0 = [(key, v) \<leftarrow> py_enumerate 1 subdatasets. key \<in> set pre]"
  have same: "convert_band env d data_dir x w1 = convert_band env d0 data_dir x w1"
    if "x \<in> set (py_enumerate 1 pre)" for x w1
  proof -
    obtain i y where x: "x = (i, y)" by (cases x)
    with that have y: "y \<in> set pre" by (auto dest: py_enumerate_snd_mem)
    then have "y \<in> set bands" by (simp add: bands_def)
    with y have "map_of d y = map_of d0 y"
      unfolding d_def d0_def by (simp add: subdatasets_dict_lookup)
    with x show ?thesis by (simp add: convert_band_def)
  qed
  have pre: "for_each (convert_band env d data_dir) (py_enumerate 1 pre) w = (Inr (), w')"
  proof (cases "pre = []")
    case True
    with assms(2) show ?thesis by simp
  next
    case False
    with assms(2) have "for_each (convert_band env d0 data_dir) (py_enumerate 1 pre) w = (Inr (), w')"
      by (simp add: convert_to_vrt_def Let_def d0_def)
    with for_each_cong [of "py_enumerate 1 pre" "convert_band env d data_dir"
        "convert_band env d0 data_dir" w, OF same]
    show ?thesis by simp
  qed
  have "map_of d b = None"
    unfolding d_def using assms(1) by (rule out_of_range_lookup)
  then have "convert_band env d data_dir (1 + int (length pre), b) w' = (Inl KeyError, w')"
    by (rule convert_band_KeyError)
  with pre have "for_each (convert_band env d data_dir) (py_enumerate 1 bands) w = (Inl KeyError, w')"
    by (simp add: bands_def py_enumerate_append for_each_append)
  moreover have "bands \<noteq> []" by (simp add: bands_def)
  ultimately have "convert_to_vrt env subdatasets data_dir bands w = (Inl KeyError, w')"
    by (simp add: convert_to_vrt_def Let_def d_def)
  then show ?thesis by (simp only: bands_def)
qed

lemma hdf2tif_convert_error:
  assumes "overwrite_step env overwrite w = (Inr (), w0)"
      and "GetSubDatasets env hdf = Some subdatasets"
      and "create_output_directory hdf w0 = (Inr data_dir, w1)"
      and "convert_to_vrt env subdatasets data_dir bands w1 = (Inl e, w2)"
  shows "hdf2tif env hdf overwrite bands reproject w = (Inl e, w2)"
  using assms by (simp add: hdf2tif_def merge_step_def)

text \<open>
  Claim C10. Let \<open>b\<close> be a requested band position below 1 or above the number of
  subdatasets that GDAL reports for the file. Then the filtered dictionary has no
  entry for \<open>b\<close>, so that looking it up raises \<^verbatim>\<open>KeyError\<close>, a lookup error. Every
  such run ends with an exception, having made no GDAL call other than
  single-source \<^verbatim>\<open>BuildVRT\<close> calls: neither the merged VRT nor the TIFF is
  produced. The exception is this \<^verbatim>\<open>KeyError\<close> whenever the run gets as far as
  looking \<open>b\<close> up: the overwrite step and the working directory raise nothing and
  the bands requested before \<open>b\<close> are converted.
\<close>

theorem out_of_range_band_aborts:
  assumes "b \<in> set bands" and "b < 1 \<or> int (length subdatasets) < b"
      and "GetSubDatasets env hdf = Some subdatasets"
  shows "map_of [(key, v) \<leftarrow> py_enumerate 1 subdatasets. key \<in> set bands] b = None \<and>
         is_LookupError KeyError \<and>
         (\<exists>e w'. hdf2tif env hdf overwrite bands reproject w = (Inl e, w') \<and>
                  only_single_builds w w') \<and>
         (\<forall>pre post w0 data_dir w1 w2.
            bands = pre @ b # post \<and>
            overwrite_step env overwrite w = (Inr (), w0) \<and>
            create_output_directory hdf w0 = (Inr data_dir, w1) \<and>
            (pre = [] \<and> w2 = w1 \<or>
             pre \<noteq> [] \<and> convert_to_vrt env subdatasets data_dir pre w1 = (Inr (), w2)) \<longrightarrow>
            hdf2tif env hdf overwrite bands reproject w = (Inl KeyError, w2))"
proof (intro conjI allI impI)
  show "map_of [(key, v) \<leftarrow> py_enumerate 1 subdatasets. key \<in> set bands] b = None"
    using assms(2) by (rule out_of_range_lookup)
  show "is_LookupError KeyError" by simp
  have "\<exists>e w'. convert_to_vrt env subdatasets data_dir bands w = (Inl e, w')" for data_dir w
    using assms(1,2) by (rule convert_to_vrt_out_of_range)
  then show "\<exists>e w'. hdf2tif env hdf overwrite bands reproject w = (Inl e, w') \<and>
                  only_single_builds w w'"
    using assms(3) by (intro hdf2tif_convert_abort) auto
next
  fix pre post w0 data_dir w1 w2
  assume a: "bands = pre @ b # post \<and>
            overwrite_step env overwrite w = (Inr (), w0) \<and>
            create_output_directory hdf w0 = (Inr data_dir, w1) \<and>
            (pre = [] \<and> w2 = w1 \<or>
             pre \<noteq> [] \<and> convert_to_vrt env subdatasets data_dir pre w1 = (Inr (), w2))"
  then have "convert_to_vrt env subdatasets data_dir bands w1 = (Inl KeyError, w2)"
    using convert_to_vrt_first_out_of_range [OF assms(2), of pre w2 w1 env data_dir post]
    by blast
  with a assms(3) show "hdf2tif env hdf overwrite bands reproject w = (Inl KeyError, w2)"
    by (intro hdf2tif_convert_error) auto
qed

theorem out_of_range_band_aborts_witness:
  "(7::int) \<in> set [1, 7] \<and> ((7::int) < 1 \<or> int (length ex_subdatasets) < 7) \<and>
   GetSubDatasets ex_env ''a.hdf'' = Some ex_subdatasets \<and>
   map_of [(key, v) \<leftarrow> py_enumerate 1 ex_subdatasets. key \<in> set [1, 7]] 7 = None \<and>
   fst (hdf2tif ex_env ''a.hdf'' True [1, 7] True ex_world) = Inl KeyError \<and>
   only_single_builds ex_world (snd (hdf2tif ex_env ''a.hdf'' True [1, 7] True ex_world))"
proof -
  define w1 where "w1 = ex_world\<lparr>fs := fs ex_world @ [(''a'', Dir)]\<rparr>"
  define w2 where "w2 = snd (convert_to_vrt ex_env ex_subdatasets ''a'' [1] w1)"
  have h1: "(7::int) \<in> set [1, 7]" by simp
  have h2: "(7::int) < 1 \<or> int (length ex_subdatasets) < 7"
    by (simp add: ex_subdatasets_def)
  have h3: "GetSubDatasets ex_env ''a.hdf'' = Some ex_subdatasets"
    by (simp add: ex_env_def)
  have over: "overwrite_step ex_env True ex_world = (Inr (), ex_world)"
    by code_simp
  have dir: "create_output_directory ''a.hdf'' ex_world = (Inr ''a'', w1)"
    unfolding w1_def by code_simp
  have "fst (convert_to_vrt ex_env ex_subdatasets ''a'' [1] w1) = Inr ()"
    unfolding w1_def by code_simp
  then have conv: "convert_to_vrt ex_env ex_subdatasets ''a'' [1] w1 = (Inr (), w2)"
    by (simp add: w2_def prod_eq_iff)
  note t = out_of_range_band_aborts [OF h1 h2 h3, of True True ex_world]
  from t have a: "map_of [(key, v) \<leftarrow> py_enumerate 1 ex_subdatasets. key \<in> set [1, 7]] 7 = None"
    by blast
  from t have b: "\<exists>e w'. hdf2tif ex_env ''a.hdf'' True [1, 7] True ex_world = (Inl e, w') \<and>
      only_single_builds ex_world w'"
    by blast
  from t over dir conv have c: "hdf2tif ex_env ''a.hdf'' True [1, 7] True ex_world = (Inl KeyError, w2)"
    by (elim conjE allE [of _ "[1]"] allE [of _ "[]"] allE [of _ ex_world] allE [of _ "''a''"]
        allE [of _ w1] allE [of _ w2]) simp
  from b c have "only_single_builds ex_world (snd (hdf2tif ex_env ''a.hdf'' True [1, 7] True ex_world))"
    by auto
  with h1 h2 h3 a c show ?thesis by simp
qed

subsection \<open>The paths of the merged VRT and of the TIFF\<close>

lemma prefix_shift_absurd:
  assumes p: "prefix (c # r) (s @ c # r)" and s: "s \<noteq> []" and c: "c \<notin> set r"
  shows "sublist (c # r) s"
proof (cases "length (c # r) \<le> length s")
  case True
  with p have "prefix (c # r) s"
    by (metis prefix_length_prefix prefixI)
  then show ?thesis by (rule prefix_imp_sublist)
next
  case False
  then have l: "length s < Suc (length r)" by simp
  from s have l0: "0 < length s" by simp
  from l0 l have l1: "length s - 1 < length r" by arith
  from p obtain u where u: "s @ c # r = (c # r) @ u" by (auto simp: prefix_def)
  have "(s @ c # r) ! length s = c" by simp
  moreover from l have "length s < length (c # r)" by simp
  then have "((c # r) @ u) ! length s = (c # r) ! length s"
    by (rule nth_append_left)
  ultimately have "(c # r) ! length s = c" using u by simp
  with l0 have "r ! (length s - 1) = c"
    by (simp add: nth_Cons')
  with l1 have "c \<in> set r" by (metis nth_mem)
  with c show ?thesis by simp
qed

lemma replace_ne_suffix:
  assumes "\<not> sublist (c # r) s" and "c \<notin> set r"
  shows "replace_ne (c # r) new (s @ c # r) = s @ new"
  using assms(1)
proof (induction s)
  case Nil
  then show ?case by simp
next
  case (Cons x xs)
  have "\<not> prefix (c # r) ((x # xs) @ c # r)"
    using prefix_shift_absurd [of c r "x # xs"] Cons.prems assms(2) by blast
  then have np: "\<not> prefix (c # r) (x # (xs @ c # r))"
    by simp
  from Cons.prems have "\<not> sublist (c # r) xs"
    by (simp add: sublist_Cons_right)
  then have ih: "replace_ne (c # r) new (xs @ c # r) = xs @ new" by (rule Cons.IH)
  have "replace_ne (c # r) new (x # (xs @ c # r)) = x # replace_ne (c # r) new (xs @ c # r)"
    using np by (simp only: replace_ne.simps if_False)
  with ih show ?case by (simp only: append_Cons)
qed

lemma vrt_output_path_hdf:
  assumes "\<not> sublist ''.hdf'' stem"
  shows "vrt_output_path (stem @ ''.hdf'') = stem @ ''.vrt''"
  using replace_ne_suffix [OF assms, of "''.vrt''"] by (simp add: vrt_output_path_def replace_def)

lemma output_tiff_path_hdf:
  assumes "\<not> sublist ''.hdf'' stem" and "\<not> sublist ''.vrt'' stem"
  shows "output_tiff_path (stem @ ''.hdf'') = stem @ ''.tif''"
  using replace_ne_suffix [OF assms(2), of "''.tif''"] vrt_output_path_hdf [OF assms(1)]
  by (simp add: output_tiff_path_def replace_def)

lemma finish_step_result:
  "finish_step hdf subdatasets data_dir w = (Inr out, w') \<Longrightarrow> out = output_tiff_path hdf"
  by (auto simp: finish_step_def split: sum.splits prod.splits)

lemma hdf2tif_result:
  "hdf2tif env hdf overwrite bands reproject w = (Inr out, w') \<Longrightarrow> out = output_tiff_path hdf"
  by (auto simp: hdf2tif_def split: sum.splits prod.splits dest: finish_step_result)

text \<open>
  The two paths are made by replacing text: \<^verbatim>\<open>.hdf\<close> by \<^verbatim>\<open>.vrt\<close>, then \<^verbatim>\<open>.vrt\<close> by
  \<^verbatim>\<open>.tif\<close>, wherever they occur. For an input path \<open>stem\<close> followed by \<^verbatim>\<open>.hdf\<close>,
  where \<open>stem\<close> contains neither text, the replacement does what taking the stem
  would do.
\<close>

lemma paths_of_lower_case_extension:
  assumes "\<not> sublist ''.hdf'' stem" and "\<not> sublist ''.vrt'' stem"
  shows "vrt_output_path (stem @ ''.hdf'') = stem @ ''.vrt'' \<and>
         vrt_output_path (stem @ ''.hdf'') \<noteq> stem @ ''.hdf'' \<and>
         output_tiff_path (stem @ ''.hdf'') = stem @ ''.tif'' \<and>
         (\<forall>env overwrite bands reproject w out w'.
            hdf2tif env (stem @ ''.hdf'') overwrite bands reproject w = (Inr out, w') \<longrightarrow>
            out = stem @ ''.tif'')"
  using vrt_output_path_hdf [OF assms(1)] output_tiff_path_hdf [OF assms]
  by (auto dest: hdf2tif_result)

text \<open>
  Claim C8. The script takes the stem of the input path with \<^verbatim>\<open>os.path.splitext\<close>
  for the working directory, but makes the paths of the merged VRT and of the TIFF
  by replacing the text \<^verbatim>\<open>.hdf\<close>. For a file whose extension is written in capitals
  nothing is replaced: both paths are the input path itself. The run writes the
  merged VRT over the input file, makes no \<^verbatim>\<open>gdal.Warp\<close> call because the output
  path exists, removes the file with the temporaries, and returns the input path.
  No TIFF is produced and the input file is gone.
\<close>

theorem capital_extension_overwrites_input:
  "vrt_output_path ''/data/MOD13.HDF'' = ''/data/MOD13.HDF'' \<and>
   output_tiff_path ''/data/MOD13.HDF'' = ''/data/MOD13.HDF'' \<and>
   splitext_root ''/data/MOD13.HDF'' = ''/data/MOD13'' \<and>
   output_tiff_path ''/data/MOD13.HDF'' \<noteq> splitext_root ''/data/MOD13.HDF'' @ ''.tif'' \<and>
   map_of (fs ex_upper_world) ''/data/MOD13.HDF'' = Some (File Opaque None) \<and>
   fst (hdf2tif ex_upper_env ''/data/MOD13.HDF'' True [1] True ex_upper_world) =
     Inr ''/data/MOD13.HDF'' \<and>
   gdal_log (snd (hdf2tif ex_upper_env ''/data/MOD13.HDF'' True [1] True ex_upper_world)) =
     [BuildVRT ''/data/MOD13/01_Band01_NDVI.vrt'' [ex_upper_name ''NDVI''] False,
      BuildVRT ''/data/MOD13.HDF'' [''/data/MOD13/01_Band01_NDVI.vrt''] True,
      SetMetadata ''/data/MOD13.HDF'' (str_list [''01:NDVI'', ''02:EVI''])] \<and>
   \<not> path_exists (fs (snd (hdf2tif ex_upper_env ''/data/MOD13.HDF'' True [1] True ex_upper_world)))
       ''/data/MOD13.HDF'' \<and>
   \<not> path_exists (fs (snd (hdf2tif ex_upper_env ''/data/MOD13.HDF'' True [1] True ex_upper_world)))
       ''/data/MOD13.tif'' \<and>
   fs (snd (hdf2tif ex_upper_env ''/data/MOD13.HDF'' True [1] True ex_upper_world)) =
     [(''/data'', Dir), (''/opt/geoutilities'', Dir),
      (''/opt/geoutilities/hdf2tif.py'', File Opaque None)]"
  by code_simp

subsection \<open>The overwrite step\<close>

lemma map_of_delete: "map_of (AList.delete k al) k' = (if k' = k then None else map_of al k')"
  by (simp add: delete_conv')

text \<open>
  Claim C7, as the script has it. Without the overwrite flag the step does
  nothing. With it, when the search in the directory of the script finds no
  \<^verbatim>\<open>.tif\<close> entry the step does nothing and raises nothing; when the search finds
  entries and the first is a file, that one file is removed and every other path
  is left as it was. The rest of the run starts from the world the step leaves.
\<close>

theorem overwrite_step_removes_first:
  "(\<not> overwrite \<longrightarrow> overwrite_step env overwrite w = (Inr (), w)) \<and>
   (overwrite \<and> list_files (fs w) (DIRECTORY env) ''tif'' = [] \<longrightarrow>
      overwrite_step env overwrite w = (Inr (), w)) \<and>
   (\<forall>f rest c m. overwrite \<and> list_files (fs w) (DIRECTORY env) ''tif'' = f # rest \<and>
      map_of (fs w) f = Some (File c m) \<longrightarrow>
      overwrite_step env overwrite w = (Inr (), w\<lparr>fs := AList.delete f (fs w)\<rparr>) \<and>
      \<not> path_exists (AList.delete f (fs w)) f \<and>
      (\<forall>p. p \<noteq> f \<longrightarrow> map_of (AList.delete f (fs w)) p = map_of (fs w) p)) \<and>
   (\<forall>w0 hdf bands reproject. overwrite_step env overwrite w = (Inr (), w0) \<longrightarrow>
      hdf2tif env hdf overwrite bands reproject w = hdf2tif env hdf False bands reproject w0)"
proof (intro conjI allI impI)
  show "overwrite_step env overwrite w = (Inr (), w)" if "\<not> overwrite"
    using that by (simp add: overwrite_step_def)
  show "overwrite_step env overwrite w = (Inr (), w)"
    if "overwrite \<and> list_files (fs w) (DIRECTORY env) ''tif'' = []"
    using that by (simp add: overwrite_step_def)
next
  fix f rest c m
  assume a: "overwrite \<and> list_files (fs w) (DIRECTORY env) ''tif'' = f # rest \<and>
      map_of (fs w) f = Some (File c m)"
  then show "overwrite_step env overwrite w = (Inr (), w\<lparr>fs := AList.delete f (fs w)\<rparr>)"
    by (simp add: overwrite_step_def os_remove_def)
  show "\<not> path_exists (AList.delete f (fs w)) f"
    by (simp add: path_exists_def map_of_delete)
  show "map_of (AList.delete f (fs w)) p = map_of (fs w) p" if "p \<noteq> f" for p
    using that by (simp add: map_of_delete)
next
  fix w0 hdf bands reproject
  assume "overwrite_step env overwrite w = (Inr (), w0)"
  then show "hdf2tif env hdf overwrite bands reproject w = hdf2tif env hdf False bands reproject w0"
    by (simp add: hdf2tif_def overwrite_step_def)
qed

text \<open>
  Claim C7 as stated, that any \<^verbatim>\<open>.tif\<close> file found by the search is deleted, fails
  when the search finds two: the second is still there after the step, and after
  the whole run.
\<close>

theorem overwrite_step_counterexample:
  "list_files (fs ex_two_tifs) (DIRECTORY ex_env) ''tif'' =
     [''/opt/geoutilities/old.tif'', ''/opt/geoutilities/older.tif''] \<and>
   fst (overwrite_step ex_env True ex_two_tifs) = Inr () \<and>
   \<not> path_exists (fs (snd (overwrite_step ex_env True ex_two_tifs))) ''/opt/geoutilities/old.tif'' \<and>
   path_exists (fs (snd (overwrite_step ex_env True ex_two_tifs))) ''/opt/geoutilities/older.tif'' \<and>
   fst (hdf2tif ex_env ''a.hdf'' True [1] True ex_two_tifs) = Inr ''a.tif'' \<and>
   path_exists (fs (snd (hdf2tif ex_env ''a.hdf'' True [1] True ex_two_tifs)))
     ''/opt/geoutilities/older.tif''"
  by code_simp

theorem overwrite_step_removes_first_witness:
  "overwrite_step ex_env False ex_two_tifs = (Inr (), ex_two_tifs) \<and>
   list_files (fs ex_world) (DIRECTORY ex_env) ''tif'' = [] \<and>
   overwrite_step ex_env True ex_world = (Inr (), ex_world) \<and>
   list_files (fs ex_two_tifs) (DIRECTORY ex_env) ''tif'' =
     [''/opt/geoutilities/old.tif'', ''/opt/geoutilities/older.tif''] \<and>
   map_of (fs ex_two_tifs) ''/opt/geoutilities/old.tif'' = Some (File Opaque None) \<and>
   overwrite_step ex_env True ex_two_tifs =
     (Inr (), ex_two_tifs\<lparr>fs := AList.delete ''/opt/geoutilities/old.tif'' (fs ex_two_tifs)\<rparr>) \<and>
   hdf2tif ex_env ''a.hdf'' True [1] True ex_two_tifs =
     hdf2tif ex_env ''a.hdf'' False [1] True
       (ex_two_tifs\<lparr>fs := AList.delete ''/opt/geoutilities/old.tif'' (fs ex_two_tifs)\<rparr>)"
proof -
  have l0: "list_files (fs ex_world) (DIRECTORY ex_env) ''tif'' = []"
    by code_simp
  have l2: "list_files (fs ex_two_tifs) (DIRECTORY ex_env) ''tif'' =
     [''/opt/geoutilities/old.tif'', ''/opt/geoutilities/older.tif'']"
    by code_simp
  have f: "map_of (fs ex_two_tifs) ''/opt/geoutilities/old.tif'' = Some (File Opaque None)"
    by code_simp
  note a = overwrite_step_removes_first [of False ex_env ex_two_tifs]
  note b = overwrite_step_removes_first [of True ex_env ex_world]
  note c = overwrite_step_removes_first [of True ex_env ex_two_tifs]
  from a have 1: "overwrite_step ex_env False ex_two_tifs = (Inr (), ex_two_tifs)" by simp
  from b l0 have 2: "overwrite_step ex_env True ex_world = (Inr (), ex_world)" by simp
  from c l2 f have 3: "overwrite_step ex_env True ex_two_tifs =
     (Inr (), ex_two_tifs\<lparr>fs := AList.delete ''/opt/geoutilities/old.tif'' (fs ex_two_tifs)\<rparr>)"
    by blast
  from c 3 have 4: "hdf2tif ex_env ''a.hdf'' True [1] True ex_two_tifs =
     hdf2tif ex_env ''a.hdf'' False [1] True
       (ex_two_tifs\<lparr>fs := AList.delete ''/opt/geoutilities/old.tif'' (fs ex_two_tifs)\<rparr>)"
    by blast
  from 1 l0 2 l2 f 3 4 show ?thesis by blast
qed

subsection \<open>Warping and the band labels\<close>


lemma band_names_spec:
  "band_names k subdatasets = Inr names \<Longrightarrow>
     length names = length subdatasets \<and>
     (\<forall>i < length subdatasets.
        4 < length (split_on (CHR '':'') (fst (subdatasets ! i))) \<and>
        names ! i = zfill 2 (str_int (k + int i + 1)) @ '':'' @
                    split_on (CHR '':'') (fst (subdatasets ! i)) ! 4)"
proof (induction subdatasets arbitrary: k names)
  case Nil
  then show ?case by simp
next
  case (Cons subd rest)
  from Cons.prems obtain fragment names' where
    f: "py_index (split_on (CHR '':'') (fst subd)) 4 = Inr fragment" and
    r: "band_names (k + 1) rest = Inr names'" and
    n: "names = (zfill 2 (str_int (k + 1)) @ '':'' @ fragment) # names'"
    by (auto split: sum.splits)
  from f have f': "4 < length (split_on (CHR '':'') (fst subd))"
    "fragment = split_on (CHR '':'') (fst subd) ! 4"
    by (auto simp: py_index_def split: if_splits)
  note ih = Cons.IH [OF r]
  show ?case
  proof (intro conjI allI impI)
    show "length names = length (subd # rest)" using ih n by simp
  next
    fix i assume i: "i < length (subd # rest)"
    show "4 < length (split_on (CHR '':'') (fst ((subd # rest) ! i)))"
      using i f' ih by (cases i) auto
    show "names ! i = zfill 2 (str_int (k + int i + 1)) @ '':'' @
                    split_on (CHR '':'') (fst ((subd # rest) ! i)) ! 4"
    proof (cases i)
      case 0
      with n f' show ?thesis by simp
    next
      case (Suc j)
      with i have "j < length rest" by simp
      with ih have "names' ! j = zfill 2 (str_int (k + 1 + int j + 1)) @ '':'' @
                    split_on (CHR '':'') (fst (rest ! j)) ! 4" by blast
      moreover have "k + 1 + int j + 1 = k + int (Suc j) + 1" by simp
      ultimately show ?thesis using Suc n by simp
    qed
  qed
qed

lemma merge_step_subdatasets:
  "merge_step env hdf bands w = (Inr (subdatasets, data_dir), w') \<Longrightarrow>
     GetSubDatasets env hdf = Some subdatasets"
  by (auto simp: merge_step_def Let_def split: option.splits prod.splits sum.splits)

lemma hdf2tif_reaches_finish:
  assumes "hdf2tif env hdf overwrite bands reproject w = (Inr out, w')"
  shows "\<exists>w0 w1 subdatasets data_dir.
           overwrite_step env overwrite w = (Inr (), w0) \<and>
           merge_step env hdf bands w0 = (Inr (subdatasets, data_dir), w1) \<and>
           finish_step hdf subdatasets data_dir (warp_step hdf reproject w1) = (Inr out, w')"
  using assms by (auto simp: hdf2tif_def split: prod.splits sum.splits)

lemma merge_step_log:
  assumes "merge_step env hdf bands w = (Inr (subdatasets, data_dir), w')"
  shows "\<exists>w2. only_single_builds w w2 \<and>
           gdal_log w' = gdal_log w2 @
             [BuildVRT (vrt_output_path hdf) (sort (list_files (fs w2) data_dir ''vrt'')) True]"
proof -
  from assms obtain w1 w2 where
    c: "create_output_directory hdf w = (Inr data_dir, w1)" and
    v: "convert_to_vrt env subdatasets data_dir bands w1 = (Inr (), w2)" and
    w': "w' = gdal_BuildVRT (vrt_output_path hdf) (sort (list_files (fs w2) data_dir ''vrt'')) True
               (MergedVRT (sort (list_files (fs w2) data_dir ''vrt'')) True) w2"
    by (auto simp: merge_step_def Let_def split: option.splits prod.splits sum.splits)
  have "only_single_builds w w1"
    using create_output_directory_log [OF c] by (simp add: only_single_builds_def)
  then have "only_single_builds w w2"
    using convert_to_vrt_single [OF v] by (rule only_single_builds_trans)
  with w' show ?thesis by (auto simp: gdal_BuildVRT_def)
qed

lemma warp_step_log:
  "gdal_log (warp_step hdf reproject w) =
     (if path_exists (fs w) (output_tiff_path hdf) then gdal_log w
      else gdal_log w @ [Warp (output_tiff_path hdf) (vrt_output_path hdf) (warp_options_of reproject)])"
  by (simp add: warp_step_def Let_def gdal_Warp_def)

lemma gdal_SetMetadata_log:
  "gdal_SetMetadata p s w = (r, w') \<Longrightarrow>
     (r = Inr () \<and> gdal_log w' = gdal_log w @ [SetMetadata p s]) \<or>
     (r = Inl AttributeError \<and> w' = w)"
  by (auto simp: gdal_SetMetadata_def split: option.splits node.splits)

lemma clear_temp_files_log:
  "clear_temp_files data_dir vrt w = (r, w') \<Longrightarrow> gdal_log w' = gdal_log w"
  by (auto simp: clear_temp_files_def split: sum.splits)


lemma finish_step_success_log:
  assumes "finish_step hdf subdatasets data_dir w = (Inr out, w')"
  shows "\<exists>names. band_names 0 subdatasets = Inr names \<and>
            gdal_log w' = gdal_log w @ [SetMetadata out (str_list names)]"
  using assms
  by (auto simp: finish_step_def split: sum.splits prod.splits
      dest!: gdal_SetMetadata_log clear_temp_files_log)

text \<open>
  Whenever \<^verbatim>\<open>hdf2tif\<close> returns, the label list was built from the whole list of
  subdatasets, whatever bands were requested; every name had at least five fields,
  the label at position \<open>i\<close> (counted from 0) is \<open>i + 1\<close> padded to two digits, a
  colon and the fifth field, and the text of the list was attached in one
  \<^verbatim>\<open>SetMetadata\<close> call, the last GDAL call of the run.
\<close>

lemma labels_of_returning_run:
  assumes "hdf2tif env hdf overwrite bands reproject w = (Inr out, w')"
  shows "\<exists>subdatasets names calls.
           GetSubDatasets env hdf = Some subdatasets \<and>
           band_names 0 subdatasets = Inr names \<and>
           length names = length subdatasets \<and>
           (\<forall>i < length subdatasets.
              4 < length (split_on (CHR '':'') (fst (subdatasets ! i))) \<and>
              names ! i = zfill 2 (str_int (int i + 1)) @ '':'' @
                          split_on (CHR '':'') (fst (subdatasets ! i)) ! 4) \<and>
           gdal_log w' = gdal_log w @ calls @ [SetMetadata out (str_list names)] \<and>
           list_all (\<lambda>c. \<not> is_SetMetadata c) calls"
proof -
  from hdf2tif_reaches_finish [OF assms] obtain w0 w1 subdatasets data_dir where
    o: "overwrite_step env overwrite w = (Inr (), w0)" and
    m: "merge_step env hdf bands w0 = (Inr (subdatasets, data_dir), w1)" and
    f: "finish_step hdf subdatasets data_dir (warp_step hdf reproject w1) = (Inr out, w')"
    by blast
  from finish_step_success_log [OF f] obtain names where
    n: "band_names 0 subdatasets = Inr names" and
    l: "gdal_log w' = gdal_log (warp_step hdf reproject w1) @ [SetMetadata out (str_list names)]"
    by blast
  from merge_step_log [OF m] obtain w2 where
    s0: "only_single_builds w0 w2" and
    l1: "gdal_log w1 = gdal_log w2 @
             [BuildVRT (vrt_output_path hdf) (sort (list_files (fs w2) data_dir ''vrt'')) True]"
    by blast
  from s0 obtain singles where
    s: "gdal_log w2 = gdal_log w0 @ singles" "list_all is_single_build singles"
    unfolding only_single_builds_def by blast
  have ns: "list_all (\<lambda>c. \<not> is_SetMetadata c) singles"
    using s(2) by (induction singles) (auto elim: is_single_build.elims)
  define calls where "calls = singles @
     [BuildVRT (vrt_output_path hdf) (sort (list_files (fs w2) data_dir ''vrt'')) True] @
     (if path_exists (fs w1) (output_tiff_path hdf) then []
      else [Warp (output_tiff_path hdf) (vrt_output_path hdf) (warp_options_of reproject)])"
  have "gdal_log w' = gdal_log w @ calls @ [SetMetadata out (str_list names)]"
    using l l1 s(1) overwrite_step_log [OF o] by (simp add: warp_step_log calls_def)
  moreover have "list_all (\<lambda>c. \<not> is_SetMetadata c) calls"
    using ns by (simp add: calls_def)
  ultimately show ?thesis
    using merge_step_subdatasets [OF m] n band_names_spec [OF n] by auto
qed

text \<open>
  A name with fewer than five fields makes the label loop raise \<^verbatim>\<open>IndexError\<close>, and
  the run ends there: after the warp step, with no metadata attached and the
  temporaries in place.
\<close>

lemma band_names_short:
  "subd \<in> set subdatasets \<Longrightarrow> length (split_on (CHR '':'') (fst subd)) \<le> 4 \<Longrightarrow>
     band_names k subdatasets = Inl IndexError"
proof (induction subdatasets arbitrary: k)
  case Nil
  then show ?case by simp
next
  case (Cons x xs)
  show ?case
  proof (cases "length (split_on (CHR '':'') (fst x)) \<le> 4")
    case True
    then show ?thesis by (simp add: py_index_def)
  next
    case False
    with Cons.prems have "subd \<in> set xs" by auto
    then have "band_names (k + 1) xs = Inl IndexError"
      using Cons.prems(2) by (rule Cons.IH)
    then show ?thesis by (simp add: py_index_def)
  qed
qed

lemma finish_step_short:
  assumes "subd \<in> set subdatasets" and "length (split_on (CHR '':'') (fst subd)) \<le> 4"
  shows "finish_step hdf subdatasets data_dir w = (Inl IndexError, w)"
  using band_names_short [OF assms, of 0] by (simp add: finish_step_def)

text \<open>
  Claim C4. For the file \<^verbatim>\<open>a.hdf\<close>, whose subdataset names have five fields, the run
  for the bands 2 and 1 attaches the labels of all three subdatasets, in their
  order, as one text. For the file \<^verbatim>\<open>b.hdf\<close>, whose names have four fields, index 4
  of the split name does not exist, though its last field does, which is what the
  file names of the VRTs are made of: the run raises \<^verbatim>\<open>IndexError\<close> after it has
  warped the TIFF, attaches no metadata and leaves the merged VRT and the working
  directory behind.
\<close>

theorem label_index_raises:
  "split_on (CHR '':'') (ex_sds_name ''0'') =
     [''HDF4_SDS'', ''UNKNOWN'', [CHR 0x22] @ ''b.hdf'' @ [CHR 0x22], ''0''] \<and>
   py_index (split_on (CHR '':'') (ex_sds_name ''0'')) 4 = Inl IndexError \<and>
   last (split_on (CHR '':'') (ex_sds_name ''0'')) = ''0'' \<and>
   fst (hdf2tif ex_sds_env ''b.hdf'' True [1] True ex_sds_world) = Inl IndexError \<and>
   gdal_log (snd (hdf2tif ex_sds_env ''b.hdf'' True [1] True ex_sds_world)) =
     [BuildVRT ''b/01_Band01_0.vrt'' [ex_sds_name ''0''] False,
      BuildVRT ''b.vrt'' [''b/01_Band01_0.vrt''] True,
      Warp ''b.tif'' ''b.vrt'' (warp_options_of True)] \<and>
   map_of (fs (snd (hdf2tif ex_sds_env ''b.hdf'' True [1] True ex_sds_world))) ''b.tif'' =
     Some (File (Warped ''b.vrt'' (warp_options_of True)) None) \<and>
   path_exists (fs (snd (hdf2tif ex_sds_env ''b.hdf'' True [1] True ex_sds_world))) ''b.vrt'' \<and>
   path_exists (fs (snd (hdf2tif ex_sds_env ''b.hdf'' True [1] True ex_sds_world)))
     ''b/01_Band01_0.vrt'' \<and>
   band_names 0 ex_subdatasets = Inr [''01:NDVI'', ''02:EVI'', ''03:QA''] \<and>
   str_list [''01:NDVI'', ''02:EVI'', ''03:QA''] =
     ''['' @ quoted ''01:NDVI'' @ '', '' @ quoted ''02:EVI'' @ '', '' @ quoted ''03:QA'' @ '']'' \<and>
   fst (hdf2tif ex_env ''a.hdf'' True [2, 1] True ex_world) = Inr ''a.tif'' \<and>
   last (gdal_log (snd (hdf2tif ex_env ''a.hdf'' True [2, 1] True ex_world))) =
     SetMetadata ''a.tif''
       (''['' @ quoted ''01:NDVI'' @ '', '' @ quoted ''02:EVI'' @ '', '' @ quoted ''03:QA'' @ '']'') \<and>
   map_of (fs (snd (hdf2tif ex_env ''a.hdf'' True [2, 1] True ex_world))) ''a.tif'' =
     Some (File (Warped ''a.vrt'' (warp_options_of True))
       (Some (''['' @ quoted ''01:NDVI'' @ '', '' @ quoted ''02:EVI'' @ '', '' @
              quoted ''03:QA'' @ '']'')))"
  by code_simp



subsection \<open>What a run leaves in the file system\<close>


lemma digit_char_digit: "d < 10 \<Longrightarrow> digit_char d \<in> set ''0123456789''"
  unfolding digit_char_def by (rule nth_mem) simp

lemma str_nat_digits: "set (str_nat n) \<subseteq> set ''0123456789''"
proof (induction n rule: str_nat.induct)
  case (1 n)
  show ?case
  proof (cases "n < 10")
    case True
    then show ?thesis
      using digit_char_digit [of n] by (subst str_nat.simps) simp
  next
    case False
    have "n mod 10 < 10" by simp
    then have "digit_char (n mod 10) \<in> set ''0123456789''" by (rule digit_char_digit)
    with False 1 show ?thesis
      by (subst str_nat.simps) simp
  qed
qed

lemma str_nat_not_Nil: "str_nat n \<noteq> []"
  by (subst str_nat.simps) simp


lemma str_int_not_Nil: "str_int i \<noteq> []"
  by (simp add: str_int_def str_nat_not_Nil)

lemma zfill_chars: "set (zfill n s) \<subseteq> set s \<union> {CHR ''0''}"
  by (auto simp: zfill_def split: list.splits if_splits)

lemma zfill_not_Nil: "s \<noteq> [] \<Longrightarrow> zfill n s \<noteq> []"
  by (auto simp: zfill_def split: list.splits)























subsection \<open>The order of the generated file names\<close>

lemma digit_char_codes: "\<forall>d \<in> set [0..<10]. (of_char (digit_char d) :: nat) = 48 + d"
  by code_simp

lemma digit_char_code: "d < 10 \<Longrightarrow> (of_char (digit_char d) :: nat) = 48 + d"
  using digit_char_codes by simp

lemma digit_char_mono: "a < b \<Longrightarrow> b < 10 \<Longrightarrow> digit_char a < digit_char b"
  using digit_char_code [of a] digit_char_code [of b] by (simp add: less_char_def)

lemma digit_char_not_sign:
  assumes "d < 10"
  shows "digit_char d \<noteq> CHR ''+'' \<and> digit_char d \<noteq> CHR ''-''"
proof -
  have c: "(of_char (digit_char d) :: nat) = 48 + d"
    using assms by (rule digit_char_code)
  have "False" if e: "digit_char d = CHR ''+''"
    using c unfolding e by simp
  moreover have "False" if e: "digit_char d = CHR ''-''"
    using c unfolding e by simp
  ultimately show ?thesis by blast
qed

lemma zfill2_str_int:
  assumes "0 \<le> i" and "i < 100"
  shows "zfill 2 (str_int i) = [digit_char (nat i div 10), digit_char (nat i mod 10)]"
proof (cases "nat i < 10")
  case True
  then have s: "str_int i = [digit_char (nat i)]"
    using assms(1) by (simp add: str_int_def str_nat.simps [of "nat i"])
  have z: "digit_char 0 = CHR ''0''" by (simp add: digit_char_def)
  from True show ?thesis
    using digit_char_not_sign [of "nat i"] by (simp add: s zfill_def z)
next
  case False
  have d: "nat i div 10 < 10" using assms(2) by simp
  have "str_nat (nat i) = str_nat (nat i div 10) @ [digit_char (nat i mod 10)]"
    using False by (simp add: str_nat.simps [of "nat i"])
  also have "str_nat (nat i div 10) = [digit_char (nat i div 10)]"
    using d by (simp add: str_nat.simps [of "nat i div 10"])
  finally have "str_int i = [digit_char (nat i div 10), digit_char (nat i mod 10)]"
    using assms(1) by (simp add: str_int_def)
  then show ?thesis by (simp add: zfill_def)
qed

lemma div_mod_lex:
  fixes n m :: nat
  assumes "n < m"
  shows "n div 10 < m div 10 \<or> (n div 10 = m div 10 \<and> n mod 10 < m mod 10)"
proof (cases "n div 10 = m div 10")
  case True
  have "n div 10 * 10 + n mod 10 < m div 10 * 10 + m mod 10"
    using assms by (simp only: div_mult_mod_eq)
  then have "n div 10 * 10 + n mod 10 < n div 10 * 10 + m mod 10"
    by (simp only: True)
  then have "n mod 10 < m mod 10"
    by (simp only: add_less_cancel_left)
  with True show ?thesis by blast
next
  case False
  have "n div 10 \<le> m div 10"
    using assms by (intro div_le_mono) simp
  with False show ?thesis by simp
qed

lemma zfill2_less:
  assumes "0 \<le> i" and "i < j" and "j < 100"
  shows "zfill 2 (str_int i) @ a < zfill 2 (str_int j) @ b"
proof -
  let ?n = "nat i" and ?m = "nat j"
  have nm: "?n < ?m" "?m < 100" using assms by simp_all
  have zi: "zfill 2 (str_int i) = [digit_char (?n div 10), digit_char (?n mod 10)]"
    using assms by (intro zfill2_str_int) simp_all
  have zj: "zfill 2 (str_int j) = [digit_char (?m div 10), digit_char (?m mod 10)]"
    using assms by (intro zfill2_str_int) simp_all
  have m10: "?m div 10 < 10" "?m mod 10 < 10" "?n mod 10 < 10" using nm by simp_all
  have "?n div 10 < ?m div 10 \<or> (?n div 10 = ?m div 10 \<and> ?n mod 10 < ?m mod 10)"
    using nm(1) by (rule div_mod_lex)
  then show ?thesis
  proof (elim disjE conjE)
    assume "?n div 10 < ?m div 10"
    then have "digit_char (?n div 10) < digit_char (?m div 10)"
      using m10(1) by (rule digit_char_mono)
    then show ?thesis by (simp add: zi zj)
  next
    assume e: "?n div 10 = ?m div 10" and "?n mod 10 < ?m mod 10"
    then have "digit_char (?n mod 10) < digit_char (?m mod 10)"
      using m10(2) by (intro digit_char_mono)
    with e show ?thesis by (simp add: zi zj)
  qed
qed

lemma append_less_mono: "(x :: string) < y \<Longrightarrow> pre @ x < pre @ y"
  by (induction pre) simp_all

lemma py_enumerate_bounds:
  "(j, z) \<in> set (py_enumerate s ys) \<Longrightarrow> s \<le> j \<and> j < s + int (length ys)"
  by (induction ys arbitrary: s) force+

lemma numbered_names_sorted:
  assumes "0 \<le> s" and "s + int (length xs) \<le> 100"
  shows "sorted_wrt (<) (map (\<lambda>(i, x). pre @ zfill 2 (str_int i) @ g i x) (py_enumerate s xs))"
  using assms
proof (induction xs arbitrary: s)
  case Nil
  then show ?case by simp
next
  case (Cons x xs)
  have "pre @ zfill 2 (str_int s) @ g s x < pre @ zfill 2 (str_int j) @ g j y"
    if "(j, y) \<in> set (py_enumerate (s + 1) xs)" for j y
  proof -
    from py_enumerate_bounds [OF that] Cons.prems have "s < j" "j < 100" by simp_all
    with Cons.prems(1) have "zfill 2 (str_int s) @ g s x < zfill 2 (str_int j) @ g j y"
      by (intro zfill2_less)
    then show ?thesis by (rule append_less_mono)
  qed
  moreover have "sorted_wrt (<) (map (\<lambda>(i, x). pre @ zfill 2 (str_int i) @ g i x) (py_enumerate (s + 1) xs))"
    using Cons.prems by (intro Cons.IH) simp_all
  ultimately show ?case by auto
qed

lemma list_files_keys:
  "list_files al d e = filter (\<lambda>p. is_child d p \<and> glob_match_ext e (child_name d p)) (map fst al)"
  by (induction al) (auto simp: list_files_def)

lemma not_is_child_self: "\<not> is_child d d"
  by (simp add: is_child_def child_name_def dir_prefix_def)

lemma zfill_str_int_char:
  assumes "c \<notin> set ''0123456789''" and "c \<noteq> CHR ''-''"
  shows "c \<notin> set (zfill n (str_int i))"
proof
  assume a: "c \<in> set (zfill n (str_int i))"
  have z: "c \<noteq> CHR ''0''" using assms(1) by auto
  have "c \<notin> set (str_nat k)" for k
    using str_nat_digits [of k] assms(1) by blast
  with assms(2) have "c \<notin> set (str_int i)" by (simp add: str_int_def)
  with zfill_chars [of n "str_int i"] a z show False by blast
qed

lemma hd_zfill_mem: "hd (zfill n (str_int i) @ rest) \<in> set (zfill n (str_int i))"
proof -
  have "zfill n (str_int i) \<noteq> []"
    using str_int_not_Nil by (rule zfill_not_Nil)
  then show ?thesis by simp
qed

lemma vrt_child:
  assumes "nm \<noteq> []" and "hd nm \<noteq> CHR ''/''" and "hd nm \<noteq> CHR ''.''"
      and "CHR ''/'' \<notin> set nm" and "suffix ''.vrt'' nm"
  shows "path_join d nm = dir_prefix d @ nm"
    and "is_child d (path_join d nm) \<and> glob_match_ext ''vrt'' (child_name d (path_join d nm))"
proof -
  show j: "path_join d nm = dir_prefix d @ nm"
    using assms(1,2) by (simp add: path_join_def)
  have "child_name d (dir_prefix d @ nm) = nm" by (simp add: child_name_def)
  with assms show "is_child d (path_join d nm) \<and>
      glob_match_ext ''vrt'' (child_name d (path_join d nm))"
    unfolding j by (simp add: is_child_def glob_match_ext_def)
qed

lemma vrt_name_band_child:
  assumes "CHR ''/'' \<notin> set (last (split_on (CHR '':'') name))"
  shows "path_join d (vrt_name_band order band name) =
           dir_prefix d @ zfill 2 (str_int order) @ ''_Band'' @ zfill 2 (str_int band) @ ''_'' @
             last (split_on (CHR '':'') name) @ ''.vrt''"
    and "is_child d (path_join d (vrt_name_band order band name)) \<and>
         glob_match_ext ''vrt'' (child_name d (path_join d (vrt_name_band order band name)))"
proof -
  let ?nm = "vrt_name_band order band name"
  have s1: "CHR ''/'' \<notin> set (zfill 2 (str_int i))" for i
    by (rule zfill_str_int_char) simp_all
  have s2: "CHR ''.'' \<notin> set (zfill 2 (str_int i))" for i
    by (rule zfill_str_int_char) simp_all
  have h: "hd ?nm \<in> set (zfill 2 (str_int order))"
    unfolding vrt_name_band_def by (rule hd_zfill_mem)
  have 1: "?nm \<noteq> []" by (simp add: vrt_name_band_def)
  have 2: "hd ?nm \<noteq> CHR ''/''" using h s1 [of order] by metis
  have 3: "hd ?nm \<noteq> CHR ''.''" using h s2 [of order] by metis
  have 4: "CHR ''/'' \<notin> set ?nm"
    using assms s1 [of order] s1 [of band] by (simp add: vrt_name_band_def)
  have 5: "suffix ''.vrt'' ?nm"
    unfolding vrt_name_band_def suffix_def by (metis append.assoc)
  from vrt_child [OF 1 2 3 4 5, of d]
  show "path_join d ?nm =
           dir_prefix d @ zfill 2 (str_int order) @ ''_Band'' @ zfill 2 (str_int band) @ ''_'' @
             last (split_on (CHR '':'') name) @ ''.vrt''"
    and "is_child d (path_join d ?nm) \<and> glob_match_ext ''vrt'' (child_name d (path_join d ?nm))"
    by (simp_all add: vrt_name_band_def)
qed

lemma vrt_name_all_child:
  assumes "CHR ''/'' \<notin> set name"
  shows "path_join d (vrt_name_all order name) =
           (dir_prefix d @ ''Band'') @ zfill 2 (str_int order) @ ''_'' @ name @ ''.vrt''"
    and "is_child d (path_join d (vrt_name_all order name)) \<and>
         glob_match_ext ''vrt'' (child_name d (path_join d (vrt_name_all order name)))"
proof -
  let ?nm = "vrt_name_all order name"
  have s1: "CHR ''/'' \<notin> set (zfill 2 (str_int i))" for i
    by (rule zfill_str_int_char) simp_all
  have 1: "?nm \<noteq> []" "hd ?nm \<noteq> CHR ''/''" "hd ?nm \<noteq> CHR ''.''"
    by (simp_all add: vrt_name_all_def)
  have 4: "CHR ''/'' \<notin> set ?nm"
    using assms s1 [of order] by (simp add: vrt_name_all_def)
  have 5: "suffix ''.vrt'' ?nm"
    unfolding vrt_name_all_def suffix_def by (metis append.assoc)
  from vrt_child [OF 1 4 5, of d]
  show "path_join d ?nm = (dir_prefix d @ ''Band'') @ zfill 2 (str_int order) @ ''_'' @ name @ ''.vrt''"
    and "is_child d (path_join d ?nm) \<and> glob_match_ext ''vrt'' (child_name d (path_join d ?nm))"
    by (simp_all add: vrt_name_all_def)
qed

lemma make_vrt_keys:
  assumes "make_vrt env q name w = (Inr (), w')"
  shows "map fst (fs w') =
           (if q \<in> set (map fst (fs w)) then map fst (fs w) else map fst (fs w) @ [q])"
proof -
  define w1 where "w1 = gdal_BuildVRT q [name] False (Xml (vrt_document env name)) w"
  from assms obtain scale where m: "modify_vrt q scale w1 = (Inr (), w')"
    by (auto simp: make_vrt_def Let_def w1_def split: sum.splits)
  then obtain root m0 root' where
    e: "map_of (fs w1) q = Some (File (Xml root) m0)" and
    f: "fs w' = AList.update q (File (Xml root') m0) (fs w1)"
    by (auto simp: modify_vrt_def split: option.splits node.splits content.splits sum.splits)
  from e have "q \<in> set (map fst (fs w1))"
    by (metis map_of_eq_None_iff option.distinct(1) set_map)
  with f have k: "map fst (fs w') = map fst (fs w1)" "q \<in> set (map fst (fs w1))"
    by (simp_all add: update_keys)
  have "fs w1 = fs w \<or> fs w1 = AList.update q (File (Xml (vrt_document env name)) None) (fs w)"
    by (simp add: w1_def gdal_BuildVRT_def write_file_def)
  then show ?thesis
  proof
    assume "fs w1 = fs w"
    with k show ?thesis by simp
  next
    assume "fs w1 = AList.update q (File (Xml (vrt_document env name)) None) (fs w)"
    with k(1) show ?thesis by (simp add: update_keys)
  qed
qed

lemma make_vrt_list_files:
  assumes "make_vrt env q name w = (Inr (), w')"
      and "is_child d q \<and> glob_match_ext e (child_name d q)"
  shows "set (list_files (fs w') d e) = insert q (set (list_files (fs w) d e))"
    and "distinct (list_files (fs w) d e) \<Longrightarrow> distinct (list_files (fs w') d e)"
  using assms(2) by (auto simp: list_files_keys make_vrt_keys [OF assms(1)])

lemma for_each_make_vrt:
  assumes body: "\<And>x w w'. x \<in> set xs \<Longrightarrow> body x w = (Inr (), w') \<Longrightarrow>
                   make_vrt env (out x) (src x) w = (Inr (), w')"
      and child: "\<And>x. x \<in> set xs \<Longrightarrow>
                   is_child d (out x) \<and> glob_match_ext e (child_name d (out x))"
      and run: "for_each body xs w = (Inr (), w')"
  shows "gdal_log w' = gdal_log w @ map (\<lambda>x. BuildVRT (out x) [src x] False) xs \<and>
         set (list_files (fs w') d e) = set (list_files (fs w) d e) \<union> out ` set xs \<and>
         (distinct (list_files (fs w) d e) \<longrightarrow> distinct (list_files (fs w') d e))"
  using assms
proof (induction xs arbitrary: w)
  case Nil
  then show ?case by simp
next
  case (Cons x xs)
  from Cons.prems(3) obtain w1 where
    b: "body x w = (Inr (), w1)" and r: "for_each body xs w1 = (Inr (), w')"
    by (auto split: prod.splits sum.splits)
  have m: "make_vrt env (out x) (src x) w = (Inr (), w1)"
    using Cons.prems(1) [of x w w1] b by simp
  have c: "is_child d (out x) \<and> glob_match_ext e (child_name d (out x))"
    using Cons.prems(2) [of x] by simp
  note ih = Cons.IH [OF _ _ r]
  have ih': "gdal_log w' = gdal_log w1 @ map (\<lambda>x. BuildVRT (out x) [src x] False) xs \<and>
         set (list_files (fs w') d e) = set (list_files (fs w1) d e) \<union> out ` set xs \<and>
         (distinct (list_files (fs w1) d e) \<longrightarrow> distinct (list_files (fs w') d e))"
    using Cons.prems(1,2) by (intro ih) simp_all
  from make_vrt_log [OF m] make_vrt_list_files [OF m c] ih'
  show ?case by auto
qed

lemma sort_unique:
  assumes "sorted_wrt (<) (qs :: string list)" and "set xs = set qs" and "distinct xs"
  shows "sort xs = qs"
proof -
  from assms(1) have "sorted qs" "distinct qs" by (simp_all add: strict_sorted_iff)
  moreover have "sorted (sort xs)" "distinct (sort xs)" "set (sort xs) = set qs"
    using assms(2,3) by simp_all
  ultimately show ?thesis by (intro sorted_distinct_set_unique)
qed

subsection \<open>The sources of the merged VRT\<close>

lemma length_py_enumerate [simp]: "length (py_enumerate s xs) = length xs"
  by (induction xs arbitrary: s) simp_all

lemma map_zip_maps:
  "map (\<lambda>x. F (f x) (g x)) xs = map (\<lambda>(a, b). F a b) (zip (map f xs) (map g xs))"
  by (induction xs) simp_all

lemma convert_to_vrt_bands_order:
  assumes c: "convert_to_vrt env subdatasets d bands w = (Inr (), w')"
      and ne: "bands \<noteq> []"
      and empty: "list_files (fs w) d ''vrt'' = []"
      and len: "length bands < 100"
      and slash: "\<forall>b \<in> set bands.
                    CHR ''/'' \<notin> set (last (split_on (CHR '':'') (fst (subdatasets ! nat (b - 1)))))"
  shows "\<exists>outs. length outs = length bands \<and>
           gdal_log w' = gdal_log w @
             map (\<lambda>(out, name). BuildVRT out [name] False)
               (zip outs (map (\<lambda>b. fst (subdatasets ! nat (b - 1))) bands)) \<and>
           sort (list_files (fs w') d ''vrt'') = outs"
proof -
  define dict where "dict = [(key, v) \<leftarrow> py_enumerate 1 subdatasets. key \<in> set bands]"
  define src where "src = (\<lambda>x :: int \<times> int. fst (subdatasets ! nat (snd x - 1)))"
  define out where "out = (\<lambda>x :: int \<times> int. path_join d (vrt_name_band (fst x) (snd x) (src x)))"
  define xs where "xs = py_enumerate 1 bands"
  have run: "for_each (convert_band env dict d) xs w = (Inr (), w')"
    using c ne by (simp add: convert_to_vrt_def Let_def dict_def xs_def)
  have mem: "snd x \<in> set bands" if "x \<in> set xs" for x
    using that py_enumerate_snd_mem [of "fst x" "snd x" 1 bands] by (simp add: xs_def)
  have body: "make_vrt env (out x) (src x) w0 = (Inr (), w1)"
    if "x \<in> set xs" and "convert_band env dict d x w0 = (Inr (), w1)" for x w0 w1
  proof -
    obtain order band where x: "x = (order, band)" by (cases x)
    from that(2) x obtain subd where
      l: "map_of dict band = Some subd" and
      m: "make_vrt env (path_join d (vrt_name_band order band (fst subd))) (fst subd) w0 = (Inr (), w1)"
      by (auto simp: convert_band_def split: option.splits)
    from l have "subd = subdatasets ! nat (band - 1)"
      unfolding dict_def by (simp add: subdatasets_dict_lookup split: if_splits)
    with m x show ?thesis by (simp add: out_def src_def)
  qed
  have child: "is_child d (out x) \<and> glob_match_ext ''vrt'' (child_name d (out x))"
    if "x \<in> set xs" for x
    unfolding out_def
    using slash mem [OF that] by (intro vrt_name_band_child(2)) (simp add: src_def)
  from for_each_make_vrt [of xs "convert_band env dict d" env out src d "''vrt''" w w',
      OF body child run] empty
  have log: "gdal_log w' = gdal_log w @ map (\<lambda>x. BuildVRT (out x) [src x] False) xs"
    and st: "set (list_files (fs w') d ''vrt'') = out ` set xs"
    and di: "distinct (list_files (fs w') d ''vrt'')"
    by simp_all
  have outs: "map out xs =
      map (\<lambda>(i, b). dir_prefix d @ zfill 2 (str_int i) @
             (''_Band'' @ zfill 2 (str_int b) @ ''_'' @
                last (split_on (CHR '':'') (fst (subdatasets ! nat (b - 1)))) @ ''.vrt'')) xs"
  proof (rule map_cong [OF refl])
    fix x assume "x \<in> set xs"
    from mem [OF this] slash
    have "CHR ''/'' \<notin> set (last (split_on (CHR '':'') (src x)))"
      by (simp add: src_def)
    from vrt_name_band_child(1) [OF this, of d "fst x" "snd x"]
    show "out x = (case x of (i, b) \<Rightarrow> dir_prefix d @ zfill 2 (str_int i) @
             (''_Band'' @ zfill 2 (str_int b) @ ''_'' @
                last (split_on (CHR '':'') (fst (subdatasets ! nat (b - 1)))) @ ''.vrt''))"
      by (cases x) (simp add: out_def src_def)
  qed
  have "0 \<le> (1::int)" "1 + int (length bands) \<le> 100"
    using len by simp_all
  from numbered_names_sorted [OF this, where pre = "dir_prefix d" and
      g = "\<lambda>i b. ''_Band'' @ zfill 2 (str_int b) @ ''_'' @
                last (split_on (CHR '':'') (fst (subdatasets ! nat (b - 1)))) @ ''.vrt''"]
  have "sorted_wrt (<) (map out xs)"
    unfolding outs by (simp only: xs_def)
  moreover have "set (list_files (fs w') d ''vrt'') = set (map out xs)"
    using st by simp
  ultimately have s: "sort (list_files (fs w') d ''vrt'') = map out xs"
    using di by (intro sort_unique)
  have srcs: "map src xs = map (\<lambda>b. fst (subdatasets ! nat (b - 1))) bands"
  proof -
    have "map src xs = map (\<lambda>b. fst (subdatasets ! nat (b - 1))) (map snd xs)"
      by (simp add: src_def comp_def)
    then show ?thesis by (simp add: xs_def)
  qed
  have "map (\<lambda>x. BuildVRT (out x) [src x] False) xs =
        map (\<lambda>(out, name). BuildVRT out [name] False) (zip (map out xs) (map src xs))"
    by (rule map_zip_maps [where F = "\<lambda>a b. BuildVRT a [b] False"])
  with log srcs have "gdal_log w' = gdal_log w @
             map (\<lambda>(out, name). BuildVRT out [name] False)
               (zip (map out xs) (map (\<lambda>b. fst (subdatasets ! nat (b - 1))) bands))"
    by simp
  moreover have "length (map out xs) = length bands"
    by (simp add: xs_def)
  ultimately show ?thesis using s by blast
qed

lemma convert_to_vrt_all_order:
  assumes c: "convert_to_vrt env subdatasets d [] w = (Inr (), w')"
      and empty: "list_files (fs w) d ''vrt'' = []"
      and len: "length subdatasets < 100"
      and slash: "\<forall>name \<in> set (map fst subdatasets). CHR ''/'' \<notin> set name"
  shows "\<exists>outs. length outs = length subdatasets \<and>
           gdal_log w' = gdal_log w @
             map (\<lambda>(out, name). BuildVRT out [name] False) (zip outs (map fst subdatasets)) \<and>
           sort (list_files (fs w') d ''vrt'') = outs"
proof -
  define src where "src = (\<lambda>x :: int \<times> string \<times> string. fst (snd x))"
  define out where "out = (\<lambda>x :: int \<times> string \<times> string. path_join d (vrt_name_all (fst x) (src x)))"
  define xs where "xs = py_enumerate 1 subdatasets"
  have run: "for_each (convert_all env xs d) xs w = (Inr (), w')"
    using c by (simp add: convert_to_vrt_def Let_def xs_def)
  have mem: "snd x \<in> set subdatasets" if "x \<in> set xs" for x
    using that py_enumerate_snd_mem [of "fst x" "snd x" 1 subdatasets] by (simp add: xs_def)
  have body: "make_vrt env (out x) (src x) w0 = (Inr (), w1)"
    if "x \<in> set xs" and "convert_all env xs d x w0 = (Inr (), w1)" for x w0 w1
  proof -
    obtain order subd where x: "x = (order, subd)" by (cases x)
    with that(1) have "map_of xs order = Some subd"
      unfolding xs_def by (intro py_enumerate_lookup) simp
    with that(2) x show ?thesis
      by (simp add: convert_all_def out_def src_def)
  qed
  have sl: "CHR ''/'' \<notin> set (src x)" if "x \<in> set xs" for x
    using slash mem [OF that] by (simp add: src_def)
  have child: "is_child d (out x) \<and> glob_match_ext ''vrt'' (child_name d (out x))"
    if "x \<in> set xs" for x
    unfolding out_def using sl [OF that] by (rule vrt_name_all_child(2))
  from for_each_make_vrt [of xs "convert_all env xs d" env out src d "''vrt''" w w',
      OF body child run] empty
  have log: "gdal_log w' = gdal_log w @ map (\<lambda>x. BuildVRT (out x) [src x] False) xs"
    and st: "set (list_files (fs w') d ''vrt'') = out ` set xs"
    and di: "distinct (list_files (fs w') d ''vrt'')"
    by simp_all
  have outs: "map out xs =
      map (\<lambda>(i, s). (dir_prefix d @ ''Band'') @ zfill 2 (str_int i) @ (''_'' @ fst s @ ''.vrt'')) xs"
  proof (rule map_cong [OF refl])
    fix x assume "x \<in> set xs"
    from vrt_name_all_child(1) [OF sl [OF this], of d "fst x"]
    show "out x = (case x of (i, s) \<Rightarrow>
            (dir_prefix d @ ''Band'') @ zfill 2 (str_int i) @ (''_'' @ fst s @ ''.vrt''))"
      by (cases x) (simp add: out_def src_def)
  qed
  have "0 \<le> (1::int)" "1 + int (length subdatasets) \<le> 100"
    using len by simp_all
  from numbered_names_sorted [OF this, where pre = "dir_prefix d @ ''Band''" and
      g = "\<lambda>i s. ''_'' @ fst s @ ''.vrt''"]
  have "sorted_wrt (<) (map out xs)"
    unfolding outs by (simp only: xs_def)
  moreover have "set (list_files (fs w') d ''vrt'') = set (map out xs)"
    using st by simp
  ultimately have s: "sort (list_files (fs w') d ''vrt'') = map out xs"
    using di by (intro sort_unique)
  have srcs: "map src xs = map fst subdatasets"
  proof -
    have "map src xs = map fst (map snd xs)"
      by (simp add: src_def comp_def)
    then show ?thesis by (simp add: xs_def)
  qed
  have "map (\<lambda>x. BuildVRT (out x) [src x] False) xs =
        map (\<lambda>(out, name). BuildVRT out [name] False) (zip (map out xs) (map src xs))"
    by (rule map_zip_maps [where F = "\<lambda>a b. BuildVRT a [b] False"])
  with log srcs have "gdal_log w' = gdal_log w @
             map (\<lambda>(out, name). BuildVRT out [name] False) (zip (map out xs) (map fst subdatasets))"
    by simp
  moreover have "length (map out xs) = length subdatasets"
    by (simp add: xs_def)
  ultimately show ?thesis using s by blast
qed

lemma convert_to_vrt_order:
  assumes c: "convert_to_vrt env subdatasets d bands w = (Inr (), w')"
      and empty: "list_files (fs w) d ''vrt'' = []"
      and len: "length (requested_names subdatasets bands) < 100"
      and slash: "\<forall>name \<in> set (requested_names subdatasets bands).
                    CHR ''/'' \<notin> set (name_part bands name)"
  shows "\<exists>outs. length outs = length (requested_names subdatasets bands) \<and>
           gdal_log w' = gdal_log w @
             map (\<lambda>(out, name). BuildVRT out [name] False)
               (zip outs (requested_names subdatasets bands)) \<and>
           sort (list_files (fs w') d ''vrt'') = outs"
proof (cases "bands = []")
  case True
  with assms show ?thesis
    using convert_to_vrt_all_order [of env subdatasets d w w']
    by (simp add: requested_names_def name_part_def)
next
  case False
  with assms show ?thesis
    using convert_to_vrt_bands_order [of env subdatasets d bands w w']
    by (simp add: requested_names_def name_part_def)
qed

lemma create_output_directory_list_files:
  assumes "create_output_directory hdf w = (Inr d, w1)"
  shows "list_files (fs w1) d e = list_files (fs w) d e \<and> gdal_log w1 = gdal_log w"
proof -
  from assms have "fs w1 = fs w \<or> fs w1 = fs w @ [(d, Dir)]" "gdal_log w1 = gdal_log w"
    by (auto simp: create_output_directory_def Let_def makedirs_def split: if_splits)
  then show ?thesis
    using not_is_child_self [of d] by (auto simp: list_files_keys)
qed

text \<open>
  Claim C1, as the script has it. In every run that reaches the merge step, the
  merged VRT is built, with the bands kept separate, from the \<^verbatim>\<open>.vrt\<close> entries that
  the working directory holds after the conversion, sorted by path. When the
  working directory held no \<^verbatim>\<open>.vrt\<close> entry before, fewer than 100 VRTs are
  generated, the parts of the subdataset names that go into the file names contain
  no slash, and the path of the directory has no glob character, these sources
  are the outputs of the single-band \<^verbatim>\<open>BuildVRT\<close> calls of this run, in the order of
  those calls, which is the order in which the bands were requested or the
  subdatasets enumerated.
\<close>

theorem merged_vrt_order:
  assumes "merge_step env hdf bands w = (Inr (subdatasets, data_dir), w')"
  shows "(\<exists>w1 w2. create_output_directory hdf w = (Inr data_dir, w1) \<and>
            convert_to_vrt env subdatasets data_dir bands w1 = (Inr (), w2) \<and>
            w' = gdal_BuildVRT (vrt_output_path hdf)
                   (sort (list_files (fs w2) data_dir ''vrt'')) True
                   (MergedVRT (sort (list_files (fs w2) data_dir ''vrt'')) True) w2) \<and>
         (\<not> has_magic data_dir \<and>
          list_files (fs w) data_dir ''vrt'' = [] \<and>
          length (requested_names subdatasets bands) < 100 \<and>
          (\<forall>name \<in> set (requested_names subdatasets bands).
             CHR ''/'' \<notin> set (name_part bands name)) \<longrightarrow>
            (\<exists>outs. length outs = length (requested_names subdatasets bands) \<and>
               gdal_log w' = gdal_log w @
                 map (\<lambda>(out, name). BuildVRT out [name] False)
                   (zip outs (requested_names subdatasets bands)) @
                 [BuildVRT (vrt_output_path hdf) outs True]))"
proof -
  from assms obtain w1 w2 where
    c: "create_output_directory hdf w = (Inr data_dir, w1)" and
    v: "convert_to_vrt env subdatasets data_dir bands w1 = (Inr (), w2)" and
    w': "w' = gdal_BuildVRT (vrt_output_path hdf) (sort (list_files (fs w2) data_dir ''vrt'')) True
               (MergedVRT (sort (list_files (fs w2) data_dir ''vrt'')) True) w2"
    by (auto simp: merge_step_def Let_def split: option.splits prod.splits sum.splits)
  have "\<exists>outs. length outs = length (requested_names subdatasets bands) \<and>
               gdal_log w' = gdal_log w @
                 map (\<lambda>(out, name). BuildVRT out [name] False)
                   (zip outs (requested_names subdatasets bands)) @
                 [BuildVRT (vrt_output_path hdf) outs True]"
    if h: "list_files (fs w) data_dir ''vrt'' = []"
       "length (requested_names subdatasets bands) < 100"
       "\<forall>name \<in> set (requested_names subdatasets bands). CHR ''/'' \<notin> set (name_part bands name)"
  proof -
    from create_output_directory_list_files [OF c, of "''vrt''"] h(1)
    have e: "list_files (fs w1) data_dir ''vrt'' = []" and l: "gdal_log w1 = gdal_log w"
      by simp_all
    from convert_to_vrt_order [OF v e h(2,3)] obtain outs where
      o: "length outs = length (requested_names subdatasets bands)"
         "gdal_log w2 = gdal_log w1 @
             map (\<lambda>(out, name). BuildVRT out [name] False)
               (zip outs (requested_names subdatasets bands))"
         "sort (list_files (fs w2) data_dir ''vrt'') = outs"
      by blast
    have "gdal_log w' = gdal_log w2 @ [BuildVRT (vrt_output_path hdf) outs True]"
      unfolding w' by (simp add: gdal_BuildVRT_def o(3))
    with o(1,2) l show ?thesis by simp
  qed
  with c v w' show ?thesis by blast
qed

text \<open>
  Claim C1 as stated, for every run, fails when the working directory is reused
  with files in it. The run for the bands 1, 2 and 3 ends with an exception and
  leaves three VRT files; the next run asks for band 2 alone, and its merged VRT
  has four sources: the new file and the three stale ones.
\<close>

theorem merged_vrt_order_counterexample:
  "fst (hdf2tif ex_env ''a.hdf'' True [1, 2, 3] True ex_world) = Inl IndexError \<and>
   ex_world_stale = snd (hdf2tif ex_env ''a.hdf'' True [1, 2, 3] True ex_world) \<and>
   list_files (fs ex_world_stale) ''a'' ''vrt'' =
     [''a/01_Band01_NDVI.vrt'', ''a/02_Band02_EVI.vrt'', ''a/03_Band03_QA.vrt''] \<and>
   fst (hdf2tif ex_env ''a.hdf'' True [2] True ex_world_stale) = Inr ''a.tif'' \<and>
   requested_names ex_subdatasets [2] = [ex_name ''EVI''] \<and>
   fst (merge_step ex_env ''a.hdf'' [2] ex_world_stale) = Inr (ex_subdatasets, ''a'') \<and>
   last (gdal_log (snd (merge_step ex_env ''a.hdf'' [2] ex_world_stale))) =
     BuildVRT ''a.vrt''
       [''a/01_Band01_NDVI.vrt'', ''a/01_Band02_EVI.vrt'', ''a/02_Band02_EVI.vrt'',
        ''a/03_Band03_QA.vrt''] True"
  by code_simp

theorem merged_vrt_order_witness:
  "fst (merge_step ex_env ''a.hdf'' [2, 1] ex_world) = Inr (ex_subdatasets, ''a'') \<and>
   \<not> has_magic ''a'' \<and>
   list_files (fs ex_world) ''a'' ''vrt'' = [] \<and>
   requested_names ex_subdatasets [2, 1] = [ex_name ''EVI'', ex_name ''NDVI''] \<and>
   name_part [2, 1] (ex_name ''EVI'') = ''EVI'' \<and> name_part [2, 1] (ex_name ''NDVI'') = ''NDVI'' \<and>
   sort (list_files (fs (snd (convert_to_vrt ex_env ex_subdatasets ''a'' [2, 1]
           (snd (create_output_directory ''a.hdf'' ex_world))))) ''a'' ''vrt'') =
     [''a/01_Band02_EVI.vrt'', ''a/02_Band01_NDVI.vrt''] \<and>
   (\<exists>outs. length outs = 2 \<and>
      gdal_log (snd (merge_step ex_env ''a.hdf'' [2, 1] ex_world)) =
        gdal_log ex_world @
        map (\<lambda>(out, name). BuildVRT out [name] False)
          (zip outs [ex_name ''EVI'', ex_name ''NDVI'']) @
        [BuildVRT ''a.vrt'' outs True])"
proof -
  define w' where "w' = snd (merge_step ex_env ''a.hdf'' [2, 1] ex_world)"
  have f: "fst (merge_step ex_env ''a.hdf'' [2, 1] ex_world) = Inr (ex_subdatasets, ''a'')"
    by code_simp
  then have m: "merge_step ex_env ''a.hdf'' [2, 1] ex_world = (Inr (ex_subdatasets, ''a''), w')"
    by (simp add: w'_def prod_eq_iff)
  have h1: "\<not> has_magic ''a''" by code_simp
  have h2: "list_files (fs ex_world) ''a'' ''vrt'' = []" by code_simp
  have r: "requested_names ex_subdatasets [2, 1] = [ex_name ''EVI'', ex_name ''NDVI'']"
    by code_simp
  have n: "name_part [2, 1] (ex_name ''EVI'') = ''EVI''"
    "name_part [2, 1] (ex_name ''NDVI'') = ''NDVI''"
    by code_simp+
  have v: "vrt_output_path ''a.hdf'' = ''a.vrt''" by code_simp
  have s: "sort (list_files (fs (snd (convert_to_vrt ex_env ex_subdatasets ''a'' [2, 1]
           (snd (create_output_directory ''a.hdf'' ex_world))))) ''a'' ''vrt'') =
     [''a/01_Band02_EVI.vrt'', ''a/02_Band01_NDVI.vrt'']"
    by code_simp
  have h3: "length (requested_names ex_subdatasets [2, 1]) < 100"
    unfolding r by simp
  have h4: "\<forall>name \<in> set (requested_names ex_subdatasets [2, 1]).
      CHR ''/'' \<notin> set (name_part [2, 1] name)"
    unfolding r using n by simp
  from merged_vrt_order [OF m] h1 h2 h3 h4
  have "\<exists>outs. length outs = length (requested_names ex_subdatasets [2, 1]) \<and>
      gdal_log w' = gdal_log ex_world @
        map (\<lambda>(out, name). BuildVRT out [name] False)
          (zip outs (requested_names ex_subdatasets [2, 1])) @
        [BuildVRT (vrt_output_path ''a.hdf'') outs True]"
    by blast
  then have "\<exists>outs. length outs = 2 \<and>
      gdal_log w' = gdal_log ex_world @
        map (\<lambda>(out, name). BuildVRT out [name] False)
          (zip outs [ex_name ''EVI'', ex_name ''NDVI'']) @
        [BuildVRT ''a.vrt'' outs True]"
    unfolding r v by (simp add: numeral_2_eq_2)
  with f h1 h2 r n s show ?thesis unfolding w'_def by blast
qed

subsection \<open>The names of the single-band VRT files\<close>

text \<open>
  Claim C6. With explicit bands the file name is the sequence number and the band
  number, each padded to two digits, and the part of the subdataset name after
  its last colon. Without explicit bands the script puts the whole subdataset name
  into the file name, not that part. For a file opened by a path with a directory
  in it, the subdataset name holds that path, so the file name has slashes in it:
  the file cannot be created, \<^verbatim>\<open>modify_vrt\<close> fails to open it and the run ends with
  \<^verbatim>\<open>IOError\<close>, where the run with explicit bands returns.
\<close>

theorem no_band_names_use_whole_connection_string:
  "vrt_name_band 1 1 (ex_abs_name ''NDVI'') = ''01_Band01_NDVI.vrt'' \<and>
   vrt_name_all 1 (ex_abs_name ''NDVI'') = ''Band01_'' @ ex_abs_name ''NDVI'' @ ''.vrt'' \<and>
   CHR ''/'' \<in> set (vrt_name_all 1 (ex_abs_name ''NDVI'')) \<and>
   fst (hdf2tif ex_abs_env ''/data/a.hdf'' True [1, 2] True ex_abs_world) = Inr ''/data/a.tif'' \<and>
   fst (hdf2tif ex_abs_env ''/data/a.hdf'' True [] True ex_abs_world) = Inl IOError \<and>
   list_files (fs (snd (hdf2tif ex_abs_env ''/data/a.hdf'' True [] True ex_abs_world)))
     ''/data/a'' ''vrt'' = []"
  by code_simp

end
